theory Spec2Isabelle
  imports Complex_Main "HOL-Library.Multiset"
begin

section \<open>Python values\<close>

subsection \<open>Strings\<close>

text \<open>
  A Python \<open>str\<close> is a sequence of Unicode code points, so a string is a list of
  naturals. \<open>ascii\<close> embeds a literal of the source.
\<close>

type_synonym pystr = "nat list"

definition ascii :: "string \<Rightarrow> pystr" where
  "ascii cs = map of_char cs"

text \<open>
  \<open>str.isspace\<close> and \<open>str.upper\<close> on one code point. Below 128 both are written
  out (tab to carriage return, the four separators 28 to 31 and the blank are white
  space; only \<open>a\<close> to \<open>z\<close> change case). From 128 on they are the Unicode tables of
  the interpreter, which are parameters here: \<open>sp\<close> says which code points are white
  space, \<open>up\<close> gives the upper-case form, which may be several code points long.
\<close>

definition isspace :: "(nat \<Rightarrow> bool) \<Rightarrow> nat \<Rightarrow> bool" where
  "isspace sp c =
     (if c < 128 then (9 \<le> c \<and> c \<le> 13) \<or> (28 \<le> c \<and> c \<le> 32) else sp c)"

definition upper1 :: "(nat \<Rightarrow> pystr) \<Rightarrow> nat \<Rightarrow> pystr" where
  "upper1 up c =
     (if c < 128 then (if 97 \<le> c \<and> c \<le> 122 then [c - 32] else [c]) else up c)"

text \<open>\<open>s.strip()\<close>: white space removed at both ends.\<close>

definition strip :: "(nat \<Rightarrow> bool) \<Rightarrow> pystr \<Rightarrow> pystr" where
  "strip sp s = rev (dropWhile (isspace sp) (rev (dropWhile (isspace sp) s)))"

text \<open>\<open>s <= t\<close> on strings: lexicographic, by code point.\<close>

fun str_le :: "pystr \<Rightarrow> pystr \<Rightarrow> bool" where
  "str_le [] t = True"
| "str_le (x # xs) [] = False"
| "str_le (x # xs) (y # ys) = (x < y \<or> (x = y \<and> str_le xs ys))"

section \<open>Answer grading (app.py)\<close>

text \<open>
  \<open>normalize_choice\<close>, the local function of \<open>api_submit_answer\<close>: the string is
  stripped; an empty string stays empty; otherwise \<open>first = s[0].upper()\<close> is returned
  when \<open>'A' <= first <= 'Z'\<close> (a comparison of strings), else the stripped string.
\<close>

definition normalize_choice :: "(nat \<Rightarrow> bool) \<Rightarrow> (nat \<Rightarrow> pystr) \<Rightarrow> pystr \<Rightarrow> pystr" where
  "normalize_choice sp up s0 =
     (let s = strip sp s0 in
      case s of
        [] \<Rightarrow> []
      | c # _ \<Rightarrow>
          (let first = upper1 up c in
           if str_le (ascii ''A'') first \<and> str_le first (ascii ''Z'') then first else s))"

text \<open>
  The \<open>single_choice\<close> branch of \<open>api_submit_answer\<close> on a submitted and a stored
  answer that are strings: both are stripped, normalized and compared.
\<close>

definition grade_single_choice ::
  "(nat \<Rightarrow> bool) \<Rightarrow> (nat \<Rightarrow> pystr) \<Rightarrow> pystr \<Rightarrow> pystr \<Rightarrow> bool" where
  "grade_single_choice sp up user_answer answer =
     (let ua = strip sp user_answer; sa = strip sp answer in
      normalize_choice sp up ua = normalize_choice sp up sa)"

text \<open>
  The normalization as the specification words it: the key is the upper-cased first
  character when that is one letter \<open>A\<close> to \<open>Z\<close>, else the trimmed string.
\<close>

definition is_letter_AZ :: "pystr \<Rightarrow> bool" where
  "is_letter_AZ w = (case w of [u] \<Rightarrow> 65 \<le> u \<and> u \<le> 90 | _ \<Rightarrow> False)"

definition spec_normalize :: "(nat \<Rightarrow> bool) \<Rightarrow> (nat \<Rightarrow> pystr) \<Rightarrow> pystr \<Rightarrow> pystr" where
  "spec_normalize sp up s0 =
     (let s = strip sp s0 in
      case s of
        [] \<Rightarrow> []
      | c # _ \<Rightarrow> if is_letter_AZ (upper1 up c) then upper1 up c else s)"

section \<open>Decoded JSON and exceptions\<close>

text \<open>
  A Python \<open>float\<close>: a finite double is modelled by the real number it denotes (the
  rounding of an arithmetic result is not modelled), beside the two infinities and
  NaN, which \<open>json.loads\<close> accepts. Comparisons with NaN are false.
\<close>

datatype pyfloat = Finite real | PosInf | NegInf | NaN

fun flt_less :: "pyfloat \<Rightarrow> pyfloat \<Rightarrow> bool" where
  "flt_less (Finite a) (Finite b) = (a < b)"
| "flt_less (Finite a) PosInf = True"
| "flt_less NegInf (Finite b) = True"
| "flt_less NegInf PosInf = True"
| "flt_less a b = False"

fun flt_div100 :: "pyfloat \<Rightarrow> pyfloat" where
  "flt_div100 (Finite a) = Finite (a / 100)"
| "flt_div100 x = x"

text \<open>
  \<open>min(a, b)\<close> and \<open>max(a, b)\<close> of the interpreter keep the first argument unless the
  second is strictly smaller (larger).
\<close>

definition py_min :: "pyfloat \<Rightarrow> pyfloat \<Rightarrow> pyfloat" where
  "py_min a b = (if flt_less b a then b else a)"

definition py_max :: "pyfloat \<Rightarrow> pyfloat \<Rightarrow> pyfloat" where
  "py_max a b = (if flt_less a b then b else a)"

text \<open>
  What \<open>resp.json()\<close> and \<open>json.loads\<close> return. \<open>JNull\<close> is \<open>None\<close>; an object is a
  \<open>dict\<close>, kept as the list of its items in order.
\<close>

datatype json =
    JNull
  | JBool bool
  | JInt int
  | JFloat pyfloat
  | JStr pystr
  | JArr "json list"
  | JObj "(pystr \<times> json) list"

type_synonym pydict = "(pystr \<times> json) list"

datatype exn =
    AttributeError
  | TypeError
  | ValueError
  | OverflowError
  | JSONDecodeError
  | RequestException
  | HTTPError
  | ZeroDivisionError
  | UnicodeEncodeError
  | ProgrammingError

text \<open>\<open>d.get(k, default)\<close>; \<open>d.get(k)\<close> is \<open>dict_get d k JNull\<close>.\<close>

definition dict_get :: "pydict \<Rightarrow> pystr \<Rightarrow> json \<Rightarrow> json" where
  "dict_get d k dflt = (case map_of d k of None \<Rightarrow> dflt | Some v \<Rightarrow> v)"

text \<open>The truth value of a decoded value, as \<open>if x\<close> and \<open>not x\<close> take it.\<close>

fun truthy :: "json \<Rightarrow> bool" where
  "truthy JNull = False"
| "truthy (JBool b) = b"
| "truthy (JInt i) = (i \<noteq> 0)"
| "truthy (JFloat f) = (f \<noteq> Finite 0)"
| "truthy (JStr s) = (s \<noteq> [])"
| "truthy (JArr xs) = (xs \<noteq> [])"
| "truthy (JObj kvs) = (kvs \<noteq> [])"

text \<open>
  \<open>float(x)\<close>. An integer beyond the range of a double raises \<open>OverflowError\<close>; a
  string is parsed by the interpreter (\<open>parse_float\<close>, a parameter: \<open>None\<close> when it
  raises \<open>ValueError\<close>); \<open>None\<close>, a list and a dict raise \<open>TypeError\<close>.
\<close>

definition py_float :: "(pystr \<Rightarrow> pyfloat option) \<Rightarrow> json \<Rightarrow> exn + pyfloat" where
  "py_float parse_float v =
     (case v of
        JFloat f \<Rightarrow> Inr f
      | JInt i \<Rightarrow>
          if \<bar>i\<bar> < 2 ^ 1024 - 2 ^ 970 then Inr (Finite (of_int i)) else Inl OverflowError
      | JBool b \<Rightarrow> Inr (Finite (if b then 1 else 0))
      | JStr s \<Rightarrow> (case parse_float s of None \<Rightarrow> Inl ValueError | Some f \<Rightarrow> Inr f)
      | _ \<Rightarrow> Inl TypeError)"

text \<open>
  \<open>str(x)\<close>: a string is itself; the text of any other value is the interpreter's
  (\<open>repr\<close>, a parameter).
\<close>

definition py_str :: "(json \<Rightarrow> pystr) \<Rightarrow> json \<Rightarrow> pystr" where
  "py_str repr v = (case v of JStr s \<Rightarrow> s | _ \<Rightarrow> repr v)"

section \<open>The generation and scoring client (coze\_client.py, dashscope\_client.py)\<close>

text \<open>
  The two client files differ in the class name and in comments only. The remote call
  (\<open>requests.post\<close>, \<open>raise_for_status\<close>, \<open>resp.json()\<close>) either raises or gives the
  decoded body. The prompt is built from strings by formatting and joining, and what
  the remote end answers is an input here.
\<close>

datatype response = Raises exn | Decoded json

subsection \<open>Locating the text of the response\<close>

text \<open>
  The known fields: \<open>data.get('output')\<close> raises on a body that is not a dict; when
  \<open>output\<close> is a dict whose \<open>choices\<close> is a non-empty list, the text is
  \<open>choices[0].get('text')\<close> (which raises unless \<open>choices[0]\<close> is a dict); else, when
  \<open>output\<close> has the key \<open>text\<close>, it is that value; else \<open>None\<close>.
\<close>

definition known_text :: "json \<Rightarrow> exn + json" where
  "known_text data =
     (case data of
        JObj d \<Rightarrow>
          (case dict_get d (ascii ''output'') JNull of
             JObj out \<Rightarrow>
               (case dict_get out (ascii ''choices'') JNull of
                  JArr (c # cs) \<Rightarrow>
                    (case c of
                       JObj cd \<Rightarrow> Inr (dict_get cd (ascii ''text'') JNull)
                     | _ \<Rightarrow> Inl AttributeError)
                | _ \<Rightarrow> Inr (dict_get out (ascii ''text'') JNull))
           | _ \<Rightarrow> Inr JNull)
      | _ \<Rightarrow> Inl AttributeError)"

text \<open>
  \<open>_extract_first_str\<close>: a string is returned as it is; in a dict (its values, in
  order) and in a list, the first recursive result that is not \<open>None\<close> and not empty
  is returned; otherwise \<open>None\<close>.
\<close>

fun first_nonempty :: "pystr option list \<Rightarrow> pystr option" where
  "first_nonempty [] = None"
| "first_nonempty (None # rs) = first_nonempty rs"
| "first_nonempty (Some s # rs) = (if s \<noteq> [] then Some s else first_nonempty rs)"

fun extract_first_str :: "json \<Rightarrow> pystr option" where
  "extract_first_str (JStr s) = Some s"
| "extract_first_str (JObj kvs) = first_nonempty (map (\<lambda>kv. extract_first_str (snd kv)) kvs)"
| "extract_first_str (JArr vs) = first_nonempty (map extract_first_str vs)"
| "extract_first_str v = None"

text \<open>\<open>output_text\<close> after the fallback: \<open>None\<close> when nothing was found.\<close>

definition response_text :: "json \<Rightarrow> exn + json" where
  "response_text data =
     (case known_text data of
        Inl e \<Rightarrow> Inl e
      | Inr t \<Rightarrow>
          Inr (if truthy t then t
               else (case extract_first_str data of None \<Rightarrow> JNull | Some s \<Rightarrow> JStr s)))"

subsection \<open>Cleaning the text\<close>

definition startswith :: "pystr \<Rightarrow> pystr \<Rightarrow> bool" where
  "startswith s p = (take (length p) s = p)"

text \<open>\<open>s.strip('`')\<close>: the back quotes (code point 96) at both ends are removed.\<close>

definition strip_backticks :: "pystr \<Rightarrow> pystr" where
  "strip_backticks s = rev (dropWhile (\<lambda>c. c = 96) (rev (dropWhile (\<lambda>c. c = 96) s)))"

text \<open>\<open>s.replace(pat, '', 1)\<close>: the first occurrence of \<open>pat\<close> is removed.\<close>

fun remove_first :: "pystr \<Rightarrow> pystr \<Rightarrow> pystr" where
  "remove_first pat [] = []"
| "remove_first pat (x # xs) =
     (if startswith (x # xs) pat then drop (length pat) (x # xs)
      else x # remove_first pat xs)"

definition clean_text :: "(nat \<Rightarrow> bool) \<Rightarrow> pystr \<Rightarrow> pystr" where
  "clean_text sp text =
     (let t = strip sp text in
      if startswith t (ascii ''```'')
      then strip sp (remove_first (ascii ''json'') (strip_backticks t))
      else t)"

subsection \<open>generate\_questions\_from\_note\<close>

text \<open>One element of the decoded list that is a dict, as the loop builds it.\<close>

definition project_question :: "pydict \<Rightarrow> pydict" where
  "project_question q =
     [(ascii ''knowledge_tag'', dict_get q (ascii ''knowledge_tag'') (JStr [])),
      (ascii ''q_type'', dict_get q (ascii ''q_type'') (JStr [])),
      (ascii ''content'', dict_get q (ascii ''content'') (JStr [])),
      (ascii ''options'',
         (let v = dict_get q (ascii ''options'') (JArr []) in if truthy v then v else JArr [])),
      (ascii ''answer'', dict_get q (ascii ''answer'') (JStr [])),
      (ascii ''analysis'', dict_get q (ascii ''analysis'') (JStr [])),
      (ascii ''difficulty'', dict_get q (ascii ''difficulty'') (JStr []))]"

fun project_all :: "json list \<Rightarrow> pydict list" where
  "project_all [] = []"
| "project_all (JObj q # qs) = project_question q # project_all qs"
| "project_all (v # qs) = project_all qs"

text \<open>
  From the text to the list: \<open>json.loads\<close> is a parameter (\<open>None\<close> when it raises);
  a decoded value that is not a list gives the empty list.
\<close>

definition questions_of_text ::
  "(pystr \<Rightarrow> json option) \<Rightarrow> (nat \<Rightarrow> bool) \<Rightarrow> pystr \<Rightarrow> exn + pydict list" where
  "questions_of_text loads sp text =
     (case loads (clean_text sp text) of
        None \<Rightarrow> Inl JSONDecodeError
      | Some (JArr qs) \<Rightarrow> Inr (project_all qs)
      | Some _ \<Rightarrow> Inr [])"

text \<open>
  The two calls of \<open>print\<close> whose failure changes what the function does: the one
  that shows a body without text (inside the \<open>try\<close>) and the last one of the
  handler, which shows the exception (after the handler's inner \<open>try\<close>). Writing to
  the standard output is the environment's: \<open>out\<close>, a parameter, is \<open>None\<close> when the
  call returns and the exception when it raises (a stream that cannot encode the
  text, a closed stream).
\<close>

datatype printed = NoTextField json | CallFailed exn

text \<open>
  The body of the \<open>try\<close> from \<open>data = resp.json()\<close> on. A text that is not empty and
  not a string has no \<open>strip\<close>.
\<close>

definition parse_questions ::
  "(pystr \<Rightarrow> json option) \<Rightarrow> (nat \<Rightarrow> bool) \<Rightarrow> (printed \<Rightarrow> exn option) \<Rightarrow> json \<Rightarrow>
   exn + pydict list" where
  "parse_questions loads sp out data =
     (case response_text data of
        Inl e \<Rightarrow> Inl e
      | Inr t \<Rightarrow>
          if \<not> truthy t
          then (case out (NoTextField data) of None \<Rightarrow> Inr [] | Some e \<Rightarrow> Inl e)
          else (case t of
                  JStr s \<Rightarrow> questions_of_text loads sp s
                | _ \<Rightarrow> Inl AttributeError))"

text \<open>
  The whole function. Without a key it returns the empty list before anything else.
  The handler \<open>except Exception as e\<close> first prints two lines inside a \<open>try\<close> of its
  own, whose failure is dropped, then prints \<open>e\<close> outside of it, and only then returns
  the empty list: when that last \<open>print\<close> raises, its exception leaves the function.
\<close>

definition generate_questions_from_note ::
  "(pystr \<Rightarrow> json option) \<Rightarrow> (nat \<Rightarrow> bool) \<Rightarrow> (printed \<Rightarrow> exn option) \<Rightarrow> pystr \<Rightarrow>
   response \<Rightarrow> exn + pydict list" where
  "generate_questions_from_note loads sp out api_key resp =
     (if api_key = [] then Inr []
      else (case (case resp of
                    Raises e \<Rightarrow> Inl e
                  | Decoded data \<Rightarrow> parse_questions loads sp out data) of
              Inr qs \<Rightarrow> Inr qs
            | Inl e \<Rightarrow> (case out (CallFailed e) of None \<Rightarrow> Inr [] | Some e' \<Rightarrow> Inl e')))"

subsection \<open>score\_answer\<close>

definition msg_no_api_key :: pystr where
  "msg_no_api_key =
     [26410, 37197, 32622, 32, 68, 97, 115, 104, 83, 99, 111, 112, 101, 32, 65, 80, 73, 32,
      75, 101, 121, 65292, 26080, 27861, 36827, 34892, 35780, 20998, 12290]"

definition msg_no_content :: pystr where
  "msg_no_content =
     [35780, 20998, 22833, 36133, 65292, 27169, 22411, 26410, 36820, 22238, 20869, 23481,
      12290]"

definition msg_failed :: pystr where
  "msg_failed =
     [35780, 20998, 22833, 36133, 65292, 26242, 26102, 25353, 38169, 35823, 22788, 29702,
      12290]"

definition msg_no_comment :: pystr where
  "msg_no_comment = [26080, 35814, 32454, 28857, 35780, 12290]"

text \<open>
  The normalization at the end of \<open>score_answer\<close>: a score above 1 is divided by 100,
  then \<open>max(0.0, min(1.0, score))\<close>.
\<close>

definition normalize_score :: "pyfloat \<Rightarrow> pyfloat" where
  "normalize_score score =
     (let s = (if flt_less (Finite 1) score then flt_div100 score else score)
      in py_max (Finite 0) (py_min (Finite 1) s))"

text \<open>
  \<open>try: body except Exception: return default\<close>, the shape of \<open>score_answer\<close>, whose
  handler prints inside a \<open>try\<close> of its own only.
\<close>

definition try_except :: "exn + 'a \<Rightarrow> 'a \<Rightarrow> exn + 'a" where
  "try_except body dflt = (case body of Inl e \<Rightarrow> Inr dflt | Inr v \<Rightarrow> Inr v)"

text \<open>From \<open>js = json.loads(output_text)\<close> to the returned pair; \<open>js.get\<close> needs a dict.\<close>

definition score_of_payload ::
  "(pystr \<Rightarrow> pyfloat option) \<Rightarrow> (json \<Rightarrow> pystr) \<Rightarrow> json \<Rightarrow> exn + (pyfloat \<times> pystr)" where
  "score_of_payload parse_float repr js =
     (case js of
        JObj d \<Rightarrow>
          (case py_float parse_float (dict_get d (ascii ''score'') (JInt 0)) of
             Inl e \<Rightarrow> Inl e
           | Inr score \<Rightarrow>
               (let c = py_str repr (dict_get d (ascii ''comment'') (JStr []));
                    comment = (if c \<noteq> [] then c else msg_no_comment)
                in Inr (normalize_score score, comment)))
      | _ \<Rightarrow> Inl AttributeError)"

definition parse_score ::
  "(pystr \<Rightarrow> json option) \<Rightarrow> (pystr \<Rightarrow> pyfloat option) \<Rightarrow> (json \<Rightarrow> pystr) \<Rightarrow>
   (nat \<Rightarrow> bool) \<Rightarrow> json \<Rightarrow> exn + (pyfloat \<times> pystr)" where
  "parse_score loads parse_float repr sp data =
     (case response_text data of
        Inl e \<Rightarrow> Inl e
      | Inr t \<Rightarrow>
          if \<not> truthy t then Inr (Finite 0, msg_no_content)
          else (case t of
                  JStr s \<Rightarrow>
                    (case loads (clean_text sp s) of
                       None \<Rightarrow> Inl JSONDecodeError
                     | Some js \<Rightarrow> score_of_payload parse_float repr js)
                | _ \<Rightarrow> Inl AttributeError))"

definition score_answer ::
  "(pystr \<Rightarrow> json option) \<Rightarrow> (pystr \<Rightarrow> pyfloat option) \<Rightarrow> (json \<Rightarrow> pystr) \<Rightarrow>
   (nat \<Rightarrow> bool) \<Rightarrow> pystr \<Rightarrow> response \<Rightarrow> exn + (pyfloat \<times> pystr)" where
  "score_answer loads parse_float repr sp api_key resp =
     (if api_key = [] then Inr (Finite 0, msg_no_api_key)
      else try_except
             (case resp of
                Raises e \<Rightarrow> Inl e
              | Decoded data \<Rightarrow> parse_score loads parse_float repr sp data)
             (Finite 0, msg_failed))"

section \<open>The store (database.py)\<close>

text \<open>
  The three tables of \<open>init_db\<close>, each a list of rows in insertion order. A column
  that may hold \<open>NULL\<close> is an option. \<open>created_at\<close> is the reading of the database
  clock at the insert (\<open>CURRENT_TIMESTAMP\<close>); only its order and its week are used.
  An \<open>AUTOINCREMENT\<close> key is one more than the largest key the table has ever held,
  which the store keeps per table.
\<close>

type_synonym timestamp = nat

record note_row =
  n_id :: int
  n_title :: pystr
  n_path :: pystr
  n_created_at :: timestamp

record question =
  q_id :: int
  q_note_id :: "int option"
  q_knowledge_tag :: "pystr option"
  q_type :: "pystr option"
  q_content :: "pystr option"
  q_options :: "pystr option"
  q_answer :: "pystr option"
  q_analysis :: "pystr option"
  q_difficulty :: "pystr option"
  q_created_at :: timestamp

record user_answer =
  a_id :: int
  a_question_id :: "int option"
  a_user_answer :: "pystr option"
  a_is_correct :: "int option"
  a_created_at :: timestamp

record db =
  note_rows :: "note_row list"
  questions :: "question list"
  user_answers :: "user_answer list"
  notes_seq :: int
  questions_seq :: int
  user_answers_seq :: int

definition init_db :: db where
  "init_db = \<lparr>note_rows = [], questions = [], user_answers = [],
              notes_seq = 0, questions_seq = 0, user_answers_seq = 0\<rparr>"

definition fresh_id :: "int \<Rightarrow> int list \<Rightarrow> int" where
  "fresh_id seq ids = fold max ids seq + 1"

text \<open>\<open>LIMIT ?\<close>: a negative limit puts no bound on the number of rows.\<close>

definition sql_limit :: "int \<Rightarrow> 'a list \<Rightarrow> 'a list" where
  "sql_limit limit rows = (if limit < 0 then rows else take (nat limit) rows)"

section \<open>The question repository (models.py)\<close>

definition insert_note :: "(int \<Rightarrow> timestamp) \<Rightarrow> db \<Rightarrow> pystr \<Rightarrow> pystr \<Rightarrow> int \<times> db" where
  "insert_note clk d title path =
     (let i = fresh_id (notes_seq d) (map n_id (note_rows d)) in
      (i, d\<lparr>note_rows := note_rows d @ [\<lparr>n_id = i, n_title = title, n_path = path,
                                  n_created_at = clk i\<rparr>],
             notes_seq := i\<rparr>))"

subsection \<open>Binding the parameters of a statement\<close>

text \<open>The decimal text of an integer.\<close>

fun digits :: "nat \<Rightarrow> pystr" where
  "digits n = (if n < 10 then [48 + n] else digits (n div 10) @ [48 + n mod 10])"

declare digits.simps [simp del]

definition decimal :: "int \<Rightarrow> pystr" where
  "decimal i = (if i < 0 then 45 # digits (nat (- i)) else digits (nat i))"

text \<open>
  What the database module does with a Python value bound to a parameter, and what a
  column declared \<open>TEXT\<close> then keeps. \<open>None\<close> is \<open>NULL\<close>. A string is encoded as UTF-8,
  which raises \<open>UnicodeEncodeError\<close> on a surrogate code point (55296 to 57343), and is
  kept as it is. An integer must fit 64 bits (else \<open>OverflowError\<close>) and is kept as
  its decimal text, \<open>True\<close> and \<open>False\<close> as \<open>1\<close> and \<open>0\<close>. A finite float is kept as the
  text the database renders it to (\<open>real_text\<close>, a parameter), the infinities as \<open>Inf\<close>
  and \<open>-Inf\<close>, NaN as \<open>NULL\<close>. A list and a dict are refused (\<open>ProgrammingError\<close>).
\<close>

definition has_surrogate :: "pystr \<Rightarrow> bool" where
  "has_surrogate s = list_ex (\<lambda>c. 55296 \<le> c \<and> c \<le> 57343) s"

definition int64 :: "int \<Rightarrow> bool" where
  "int64 i = (- (2 ^ 63) \<le> i \<and> i < 2 ^ 63)"

fun bind_text :: "(real \<Rightarrow> pystr) \<Rightarrow> json \<Rightarrow> exn + pystr option" where
  "bind_text real_text JNull = Inr None"
| "bind_text real_text (JStr s) =
     (if has_surrogate s then Inl UnicodeEncodeError else Inr (Some s))"
| "bind_text real_text (JInt i) =
     (if int64 i then Inr (Some (decimal i)) else Inl OverflowError)"
| "bind_text real_text (JBool b) = Inr (Some (if b then ascii ''1'' else ascii ''0''))"
| "bind_text real_text (JFloat (Finite x)) = Inr (Some (real_text x))"
| "bind_text real_text (JFloat PosInf) = Inr (Some (ascii ''Inf''))"
| "bind_text real_text (JFloat NegInf) = Inr (Some (ascii ''-Inf''))"
| "bind_text real_text (JFloat NaN) = Inr None"
| "bind_text real_text (JArr vs) = Inl ProgrammingError"
| "bind_text real_text (JObj kvs) = Inl ProgrammingError"

text \<open>An integer bound to the column \<open>note_id\<close>, declared \<open>INTEGER\<close>.\<close>

definition bind_int :: "int \<Rightarrow> exn + int" where
  "bind_int i = (if int64 i then Inr i else Inl OverflowError)"

text \<open>One statement after another: an exception ends the sequence.\<close>

definition on_value :: "exn + 'a \<Rightarrow> ('a \<Rightarrow> exn + 'b) \<Rightarrow> exn + 'b" where
  "on_value r f = (case r of Inl e \<Rightarrow> Inl e | Inr x \<Rightarrow> f x)"

subsection \<open>insert\_question\_batch\<close>

text \<open>
  A draft is an element of the argument \<open>questions\<close>. The upload route passes what
  \<open>generate_questions_from_note\<close> returned: dicts whose values are whatever the
  decoded answer of the remote end held under each key, so a value of any JSON type.
\<close>

text \<open>The contents read before the loop: those of the stored rows that are not empty.\<close>

definition existing_contents :: "question list \<Rightarrow> pystr list" where
  "existing_contents rows = filter (\<lambda>c. c \<noteq> []) (List.map_filter q_content rows)"

text \<open>
  Membership in the set \<open>existing_contents\<close> goes by hash and equality. A list and a
  dict cannot be hashed (\<open>TypeError\<close>). A string equals only itself. Numbers are equal
  when they denote the same number, whatever their type (\<open>True\<close> is 1, \<open>False\<close> is 0).
  NaN is one object of the decoder, found in a set by identity.
\<close>

datatype pykey = KNone | KStr pystr | KNum real | KPosInf | KNegInf | KNaN

fun py_key :: "json \<Rightarrow> exn + pykey" where
  "py_key JNull = Inr KNone"
| "py_key (JStr s) = Inr (KStr s)"
| "py_key (JInt i) = Inr (KNum (of_int i))"
| "py_key (JBool b) = Inr (KNum (if b then 1 else 0))"
| "py_key (JFloat (Finite x)) = Inr (KNum x)"
| "py_key (JFloat PosInf) = Inr KPosInf"
| "py_key (JFloat NegInf) = Inr KNegInf"
| "py_key (JFloat NaN) = Inr KNaN"
| "py_key (JArr vs) = Inl TypeError"
| "py_key (JObj kvs) = Inl TypeError"

text \<open>
  The parameters of the \<open>INSERT\<close> of one draft, in the order of the statement.
  \<open>json.dumps\<close> (a parameter, which may raise) runs when the tuple is built, so before
  anything is bound; then the first value that cannot be bound raises. The result is
  the row without its key and its time, which the database fills in.
\<close>

definition bind_row ::
  "(json \<Rightarrow> exn + pystr) \<Rightarrow> (real \<Rightarrow> pystr) \<Rightarrow> int \<Rightarrow> pydict \<Rightarrow> exn + question" where
  "bind_row dumps real_text note_id q =
     on_value (dumps (dict_get q (ascii ''options'') (JArr []))) (\<lambda>options.
     on_value (bind_int note_id) (\<lambda>n.
     on_value (bind_text real_text (dict_get q (ascii ''knowledge_tag'') (JStr []))) (\<lambda>tag.
     on_value (bind_text real_text (dict_get q (ascii ''q_type'') (JStr []))) (\<lambda>qt.
     on_value (bind_text real_text (dict_get q (ascii ''content'') (JStr []))) (\<lambda>content.
     on_value (bind_text real_text (JStr options)) (\<lambda>opts.
     on_value (bind_text real_text (dict_get q (ascii ''answer'') (JStr []))) (\<lambda>answer.
     on_value (bind_text real_text (dict_get q (ascii ''analysis'') (JStr []))) (\<lambda>analysis.
     on_value (bind_text real_text (dict_get q (ascii ''difficulty'') (JStr []))) (\<lambda>difficulty.
       Inr \<lparr>q_id = 0, q_note_id = Some n, q_knowledge_tag = tag, q_type = qt,
            q_content = content, q_options = opts, q_answer = answer,
            q_analysis = analysis, q_difficulty = difficulty, q_created_at = 0\<rparr>)))))))))"

definition insert_question ::
  "(json \<Rightarrow> exn + pystr) \<Rightarrow> (real \<Rightarrow> pystr) \<Rightarrow> (int \<Rightarrow> timestamp) \<Rightarrow> int \<Rightarrow> pydict \<Rightarrow> db \<Rightarrow>
   exn + db" where
  "insert_question dumps real_text clk note_id q d =
     on_value (bind_row dumps real_text note_id q) (\<lambda>r.
       let i = fresh_id (questions_seq d) (map q_id (questions d)) in
       Inr (d\<lparr>questions := questions d @ [r\<lparr>q_id := i, q_created_at := clk i\<rparr>],
              questions_seq := i\<rparr>))"

text \<open>
  The loop over the drafts, with the set \<open>existing_contents\<close> that it extends.
  \<open>q.get\<close> needs a dict (\<open>AttributeError\<close> otherwise); a draft whose content is not
  true is passed over; the membership test hashes the content.
\<close>

fun insert_loop ::
  "(json \<Rightarrow> exn + pystr) \<Rightarrow> (real \<Rightarrow> pystr) \<Rightarrow> (int \<Rightarrow> timestamp) \<Rightarrow> int \<Rightarrow> json list \<Rightarrow>
   pykey set \<times> db \<Rightarrow> exn + pykey set \<times> db" where
  "insert_loop dumps real_text clk note_id [] (ex, d) = Inr (ex, d)"
| "insert_loop dumps real_text clk note_id (JObj q # qs) (ex, d) =
     (let content = dict_get q (ascii ''content'') (JStr []) in
      if \<not> truthy content then insert_loop dumps real_text clk note_id qs (ex, d)
      else on_value (py_key content) (\<lambda>k.
             if k \<in> ex then insert_loop dumps real_text clk note_id qs (ex, d)
             else on_value (insert_question dumps real_text clk note_id q d) (\<lambda>d'.
                    insert_loop dumps real_text clk note_id qs (insert k ex, d'))))"
| "insert_loop dumps real_text clk note_id (v # qs) (ex, d) = Inl AttributeError"

text \<open>
  The whole call: the snapshot, the loop, and the one \<open>commit\<close> at the end. When the
  loop raises, nothing has been committed.
\<close>

definition insert_question_batch ::
  "(json \<Rightarrow> exn + pystr) \<Rightarrow> (real \<Rightarrow> pystr) \<Rightarrow> (int \<Rightarrow> timestamp) \<Rightarrow> db \<Rightarrow> int \<Rightarrow> json list \<Rightarrow>
   exn + db" where
  "insert_question_batch dumps real_text clk d note_id qs =
     on_value
       (insert_loop dumps real_text clk note_id qs
          (KStr ` set (existing_contents (questions d)), d))
       (\<lambda>(ex, d'). Inr d')"

text \<open>
  A sequence of calls, each with its note and its drafts, each on a connection of its
  own (\<open>get_db\<close>), which \<open>close_db\<close> closes when the request ends: the rows of a call
  that raised are not committed and the next call finds the store as it was.
\<close>

fun insert_batches ::
  "(json \<Rightarrow> exn + pystr) \<Rightarrow> (real \<Rightarrow> pystr) \<Rightarrow> (int \<Rightarrow> timestamp) \<Rightarrow> db \<Rightarrow>
   (int \<times> json list) list \<Rightarrow> db" where
  "insert_batches dumps real_text clk d [] = d"
| "insert_batches dumps real_text clk d ((note_id, qs) # bs) =
     insert_batches dumps real_text clk
       (case insert_question_batch dumps real_text clk d note_id qs of
          Inl e \<Rightarrow> d
        | Inr d' \<Rightarrow> d')
       bs"

text \<open>No two stored questions share a content that is not empty.\<close>

definition content_unique :: "db \<Rightarrow> bool" where
  "content_unique d = distinct (existing_contents (questions d))"

subsection \<open>Reading questions\<close>

record question_dict =
  qd_id :: int
  qd_note_id :: "int option"
  qd_knowledge_tag :: "pystr option"
  qd_q_type :: "pystr option"
  qd_content :: "pystr option"
  qd_options :: json
  qd_answer :: "pystr option"
  qd_analysis :: "pystr option"
  qd_difficulty :: "pystr option"

text \<open>
  \<open>_row_to_question_dict\<close>: \<open>json.loads(row['options'] or '[]')\<close>, with \<open>json.loads\<close>
  a parameter (\<open>None\<close> when it raises).
\<close>

definition row_to_question_dict :: "(pystr \<Rightarrow> json option) \<Rightarrow> question \<Rightarrow> exn + question_dict" where
  "row_to_question_dict loads r =
     (let text = (case q_options r of
                    None \<Rightarrow> ascii ''[]''
                  | Some s \<Rightarrow> if s \<noteq> [] then s else ascii ''[]'')
      in case loads text of
           None \<Rightarrow> Inl JSONDecodeError
         | Some v \<Rightarrow>
             Inr \<lparr>qd_id = q_id r, qd_note_id = q_note_id r,
                  qd_knowledge_tag = q_knowledge_tag r, qd_q_type = q_type r,
                  qd_content = q_content r, qd_options = v, qd_answer = q_answer r,
                  qd_analysis = q_analysis r, qd_difficulty = q_difficulty r\<rparr>)"

text \<open>The list comprehension over the fetched rows: the first row that raises ends it.\<close>

fun rows_to_dicts :: "(pystr \<Rightarrow> json option) \<Rightarrow> question list \<Rightarrow> exn + question_dict list" where
  "rows_to_dicts loads [] = Inr []"
| "rows_to_dicts loads (r # rs) =
     (case row_to_question_dict loads r of
        Inl e \<Rightarrow> Inl e
      | Inr x \<Rightarrow> (case rows_to_dicts loads rs of Inl e \<Rightarrow> Inl e | Inr xs \<Rightarrow> Inr (x # xs)))"

definition get_question_by_id ::
  "(pystr \<Rightarrow> json option) \<Rightarrow> db \<Rightarrow> int \<Rightarrow> exn + question_dict option" where
  "get_question_by_id loads d question_id =
     (case find (\<lambda>r. q_id r = question_id) (questions d) of
        None \<Rightarrow> Inr None
      | Some r \<Rightarrow>
          (case row_to_question_dict loads r of Inl e \<Rightarrow> Inl e | Inr x \<Rightarrow> Inr (Some x)))"

subsection \<open>get\_questions\_by\_knowledge\<close>

text \<open>
  \<open>SELECT id FROM notes ORDER BY created_at DESC LIMIT 1\<close>: no row when there is no
  note, else the key of a note none is newer than (which one, among notes of the same
  time, the database does not say).
\<close>

inductive latest_note :: "db \<Rightarrow> int option \<Rightarrow> bool" where
  none: "note_rows d = [] \<Longrightarrow> latest_note d None"
| newest: "n \<in> set (note_rows d) \<Longrightarrow> \<forall>m \<in> set (note_rows d). n_created_at m \<le> n_created_at n \<Longrightarrow>
     latest_note d (Some (n_id n))"

inductive resolve_note_id :: "db \<Rightarrow> int option \<Rightarrow> pystr option \<Rightarrow> int option \<Rightarrow> bool" where
  explicit: "resolve_note_id d (Some n) scope (Some n)"
| latest: "scope = Some (ascii ''latest'') \<Longrightarrow> latest_note d r \<Longrightarrow> resolve_note_id d None scope r"
| unscoped: "scope \<noteq> Some (ascii ''latest'') \<Longrightarrow> resolve_note_id d None scope None"

text \<open>The \<open>WHERE\<close> clause the function builds; a comparison with \<open>NULL\<close> selects nothing.\<close>

definition recognized :: "pystr option \<Rightarrow> bool" where
  "recognized qt =
     (qt = Some (ascii ''single_choice'') \<or> qt = Some (ascii ''short_answer''))"

definition selected :: "int option \<Rightarrow> pystr list \<Rightarrow> pystr option \<Rightarrow> question \<Rightarrow> bool" where
  "selected resolved tags qt r =
     ((resolved = None \<or> q_note_id r = resolved) \<and>
      (tags = [] \<or> (case q_knowledge_tag r of None \<Rightarrow> False | Some t \<Rightarrow> t \<in> set tags)) \<and>
      (if recognized qt then q_type r = qt else True))"

text \<open>
  \<open>ORDER BY RANDOM() LIMIT ?\<close>: the selected rows in any order, cut at the limit, then
  turned into dicts.
\<close>

inductive get_questions_by_knowledge ::
  "(pystr \<Rightarrow> json option) \<Rightarrow> db \<Rightarrow> pystr list \<Rightarrow> int \<Rightarrow> int option \<Rightarrow> pystr option \<Rightarrow>
   pystr option \<Rightarrow> exn + question_dict list \<Rightarrow> bool" where
  "resolve_note_id d note_id scope resolved \<Longrightarrow>
   mset p = mset (filter (selected resolved tags qt) (questions d)) \<Longrightarrow>
   get_questions_by_knowledge loads d tags limit note_id scope qt
     (rows_to_dicts loads (sql_limit limit p))"

subsection \<open>Answers and wrong questions\<close>

definition insert_answer :: "(int \<Rightarrow> timestamp) \<Rightarrow> db \<Rightarrow> int \<Rightarrow> pystr option \<Rightarrow> bool \<Rightarrow> db" where
  "insert_answer clk d question_id answer is_correct =
     (let i = fresh_id (user_answers_seq d) (map a_id (user_answers d)) in
      d\<lparr>user_answers := user_answers d @
           [\<lparr>a_id = i, a_question_id = Some question_id, a_user_answer = answer,
             a_is_correct = Some (if is_correct then 1 else 0), a_created_at = clk i\<rparr>],
         user_answers_seq := i\<rparr>)"

text \<open>The wrong answers joined to a question, and the newest of their times.\<close>

definition wrong_answers :: "db \<Rightarrow> question \<Rightarrow> user_answer list" where
  "wrong_answers d r =
     filter (\<lambda>a. a_question_id a = Some (q_id r) \<and> a_is_correct a = Some 0) (user_answers d)"

definition last_wrong :: "db \<Rightarrow> question \<Rightarrow> timestamp" where
  "last_wrong d r = fold max (map a_created_at (wrong_answers d r)) 0"

inductive get_wrong_questions ::
  "(pystr \<Rightarrow> json option) \<Rightarrow> db \<Rightarrow> int \<Rightarrow> exn + question_dict list \<Rightarrow> bool" where
  "mset p = mset (filter (\<lambda>r. wrong_answers d r \<noteq> []) (questions d)) \<Longrightarrow>
   sorted (rev (map (last_wrong d) p)) \<Longrightarrow>
   get_wrong_questions loads d limit (rows_to_dicts loads (sql_limit limit p))"

subsection \<open>delete\_note\<close>

definition delete_note :: "db \<Rightarrow> int \<Rightarrow> db" where
  "delete_note d note_id =
     (let q_ids = map q_id (filter (\<lambda>r. q_note_id r = Some note_id) (questions d));
          answers = (if q_ids \<noteq> []
                     then filter (\<lambda>a. case a_question_id a of
                                          None \<Rightarrow> True
                                        | Some i \<Rightarrow> i \<notin> set q_ids) (user_answers d)
                     else user_answers d)
      in d\<lparr>user_answers := answers,
            questions := filter (\<lambda>r. q_note_id r \<noteq> Some note_id) (questions d),
            note_rows := filter (\<lambda>n. n_id n \<noteq> note_id) (note_rows d)\<rparr>)"

subsection \<open>Statistics\<close>

text \<open>\<open>a / b\<close> on integers: the exact quotient, or \<open>ZeroDivisionError\<close>.\<close>

definition py_truediv :: "int \<Rightarrow> int \<Rightarrow> exn + rat" where
  "py_truediv a b = (if b = 0 then Inl ZeroDivisionError else Inr (of_int a / of_int b))"

text \<open>\<open>(a / b) if b else 0\<close>.\<close>

definition ratio_or_zero :: "int \<Rightarrow> int \<Rightarrow> exn + rat" where
  "ratio_or_zero a b = (if b \<noteq> 0 then py_truediv a b else Inr 0)"

record 'w week_stats =
  ws_week :: 'w
  ws_total :: int
  ws_correct :: int
  ws_accuracy :: rat

text \<open>\<open>SUM\<close> over a group: \<open>NULL\<close> when no value of the group is not \<open>NULL\<close>.\<close>

definition sql_sum :: "int option list \<Rightarrow> int option" where
  "sql_sum vs =
     (if List.map_filter (\<lambda>v. v) vs = [] then None
      else Some (sum_list (List.map_filter (\<lambda>v. v) vs)))"

text \<open>\<open>x or 0\<close> on a column that is a number or \<open>NULL\<close>.\<close>

definition or_zero :: "int option \<Rightarrow> int" where
  "or_zero v = (case v of None \<Rightarrow> 0 | Some i \<Rightarrow> i)"

text \<open>
  \<open>get_stats_by_week\<close>. \<open>week\<close> is \<open>strftime('%Y-%W', created_at)\<close>, a parameter whose
  values are only compared and ordered. The query gives one row per week, ascending;
  the loop turns each into a dict.
\<close>

definition week_group :: "(timestamp \<Rightarrow> 'w) \<Rightarrow> user_answer list \<Rightarrow> 'w \<Rightarrow> user_answer list" where
  "week_group week answers w = filter (\<lambda>a. week (a_created_at a) = w) answers"

definition week_row ::
  "(timestamp \<Rightarrow> 'w) \<Rightarrow> user_answer list \<Rightarrow> 'w \<Rightarrow> exn + 'w week_stats" where
  "week_row week answers w =
     (let g = week_group week answers w;
          total = or_zero (Some (int (length g)));
          correct = or_zero (sql_sum (map a_is_correct g))
      in case ratio_or_zero correct total of
           Inl e \<Rightarrow> Inl e
         | Inr acc \<Rightarrow>
             Inr \<lparr>ws_week = w, ws_total = total, ws_correct = correct, ws_accuracy = acc\<rparr>)"

fun week_rows ::
  "(timestamp \<Rightarrow> 'w) \<Rightarrow> user_answer list \<Rightarrow> 'w list \<Rightarrow> exn + 'w week_stats list" where
  "week_rows week answers [] = Inr []"
| "week_rows week answers (w # ws) =
     (case week_row week answers w of
        Inl e \<Rightarrow> Inl e
      | Inr x \<Rightarrow> (case week_rows week answers ws of Inl e \<Rightarrow> Inl e | Inr xs \<Rightarrow> Inr (x # xs)))"

definition get_stats_by_week ::
  "(timestamp \<Rightarrow> 'w::linorder) \<Rightarrow> db \<Rightarrow> exn + 'w week_stats list" where
  "get_stats_by_week week d =
     week_rows week (user_answers d)
       (sort (remdups (map (\<lambda>a. week (a_created_at a)) (user_answers d))))"

record 'w stats =
  total_answers :: int
  correct_answers :: int
  accuracy :: rat
  by_week :: "'w week_stats list"

definition get_stats_overview :: "(timestamp \<Rightarrow> 'w::linorder) \<Rightarrow> db \<Rightarrow> exn + 'w stats" where
  "get_stats_overview week d =
     (let total = int (length (user_answers d));
          correct = int (length (filter (\<lambda>a. a_is_correct a = Some 1) (user_answers d)))
      in case ratio_or_zero correct total of
           Inl e \<Rightarrow> Inl e
         | Inr acc \<Rightarrow>
             (case get_stats_by_week week d of
                Inl e \<Rightarrow> Inl e
              | Inr wk \<Rightarrow>
                  Inr \<lparr>total_answers = total, correct_answers = correct, accuracy = acc,
                       by_week = wk\<rparr>))"

section \<open>Auxiliary definitions\<close>

text \<open>The row of one week in closed form, for the proofs about the statistics.\<close>

definition week_bucket :: "(timestamp \<Rightarrow> 'w) \<Rightarrow> user_answer list \<Rightarrow> 'w \<Rightarrow> 'w week_stats" where
  "week_bucket week answers w =
     (let g = week_group week answers w;
          total = int (length g);
          correct = sum_list (map (\<lambda>a. or_zero (a_is_correct a)) g)
      in \<lparr>ws_week = w, ws_total = total, ws_correct = correct,
          ws_accuracy = (if total = 0 then 0 else of_int correct / of_int total)\<rparr>)"

text \<open>
  A draft whose content is a string, or is not true, or which is no dict at all; the
  contents, not empty, of the drafts of a list that are strings; a stored row without
  content.
\<close>

fun text_content :: "json \<Rightarrow> bool" where
  "text_content (JObj q) =
     (case dict_get q (ascii ''content'') (JStr []) of JStr s \<Rightarrow> True | v \<Rightarrow> \<not> truthy v)"
| "text_content v = True"

fun content_of :: "json \<Rightarrow> pystr option" where
  "content_of (JObj q) =
     (case dict_get q (ascii ''content'') (JStr []) of
        JStr s \<Rightarrow> if s \<noteq> [] then Some s else None
      | v \<Rightarrow> None)"
| "content_of v = None"

definition draft_contents :: "json list \<Rightarrow> pystr list" where
  "draft_contents qs = List.map_filter content_of qs"

text \<open>
  The drafts of a list that the loop inserts when it runs to its end: the dicts whose
  content is true and has a key that is neither in the set nor the key of an earlier
  such draft. A draft the loop can handle without raising: a dict whose content is
  not true, or can be hashed and bound with the other values of the dict.
\<close>

fun accepted :: "pykey set \<Rightarrow> json list \<Rightarrow> pydict list" where
  "accepted ex [] = []"
| "accepted ex (JObj q # qs) =
     (if \<not> truthy (dict_get q (ascii ''content'') (JStr [])) then accepted ex qs
      else (case py_key (dict_get q (ascii ''content'') (JStr [])) of
              Inl e \<Rightarrow> []
            | Inr k \<Rightarrow> if k \<in> ex then accepted ex qs else q # accepted (insert k ex) qs))"
| "accepted ex (v # qs) = []"

fun storable :: "(json \<Rightarrow> exn + pystr) \<Rightarrow> (real \<Rightarrow> pystr) \<Rightarrow> int \<Rightarrow> json \<Rightarrow> bool" where
  "storable dumps real_text note_id (JObj q) =
     (\<not> truthy (dict_get q (ascii ''content'') (JStr [])) \<or>
      (isl (py_key (dict_get q (ascii ''content'') (JStr []))) = False \<and>
       isl (bind_row dumps real_text note_id q) = False))"
| "storable dumps real_text note_id v = False"

definition blank :: "question \<Rightarrow> bool" where
  "blank r = (q_content r = None \<or> q_content r = Some [])"





section \<open>Sample inputs\<close>

text \<open>A standard output that cannot encode the text of a failed call.\<close>

definition demo_stdout :: "printed \<Rightarrow> exn option" where
  "demo_stdout m = (case m of CallFailed e \<Rightarrow> Some UnicodeEncodeError | NoTextField v \<Rightarrow> None)"

text \<open>A scoring response in the \<open>output.text\<close> envelope, and the decoder on its text.\<close>

definition demo_score_body :: json where
  \<open>demo_score_body =
     JObj [(ascii ''output'', JObj [(ascii ''text'', JStr (ascii ''{"score": 85}''))])]\<close>

definition demo_score_loads :: "pystr \<Rightarrow> json option" where
  \<open>demo_score_loads s =
     (if s = ascii ''{"score": 85}'' then Some (JObj [(ascii ''score'', JInt 85)]) else None)\<close>

text \<open>
  The upper-case table as far as the next input needs it: the sharp s (code point 223)
  has the upper-case form \<open>SS\<close>.
\<close>

definition upper_sharp_s :: "nat \<Rightarrow> pystr" where
  "upper_sharp_s c = (if c = 223 then [83, 83] else [c])"


text \<open>
  A store with two notes, a question of each, and three answers, two of them correct.
\<close>

definition demo_question :: "int \<Rightarrow> int \<Rightarrow> pystr \<Rightarrow> question" where
  "demo_question i n c =
     \<lparr>q_id = i, q_note_id = Some n, q_knowledge_tag = Some (ascii ''tag''),
      q_type = Some (ascii ''single_choice''), q_content = Some c,
      q_options = Some (ascii ''[]''), q_answer = Some (ascii ''A''),
      q_analysis = Some [], q_difficulty = Some [], q_created_at = 0\<rparr>"

definition demo_answer :: "int \<Rightarrow> int \<Rightarrow> int \<Rightarrow> timestamp \<Rightarrow> user_answer" where
  "demo_answer i q c t =
     \<lparr>a_id = i, a_question_id = Some q, a_user_answer = Some (ascii ''A''),
      a_is_correct = Some c, a_created_at = t\<rparr>"

definition demo_db :: db where
  "demo_db =
     \<lparr>note_rows = [\<lparr>n_id = 1, n_title = ascii ''one'', n_path = ascii ''a.txt'', n_created_at = 10\<rparr>,
                   \<lparr>n_id = 2, n_title = ascii ''two'', n_path = ascii ''b.txt'', n_created_at = 20\<rparr>],
      questions = [demo_question 1 1 (ascii ''q1''), demo_question 2 2 (ascii ''q2'')],
      user_answers = [demo_answer 1 1 1 100, demo_answer 2 2 0 200, demo_answer 3 2 1 300],
      notes_seq = 2, questions_seq = 2, user_answers_seq = 3\<rparr>"

text \<open>
  Drafts as the generation client builds them, with a content and options; a draft
  whose content is the number 5 and one whose content is a lone surrogate; two
  batches that repeat a content inside a batch and across batches, and hold a draft
  with empty content.
\<close>

definition demo_draft :: "json \<Rightarrow> json \<Rightarrow> json" where
  "demo_draft c opts =
     JObj [(ascii ''knowledge_tag'', JStr (ascii ''tag'')),
           (ascii ''q_type'', JStr (ascii ''short_answer'')),
           (ascii ''content'', c),
           (ascii ''options'', opts),
           (ascii ''answer'', JStr (ascii ''yes'')),
           (ascii ''analysis'', JStr []),
           (ascii ''difficulty'', JStr [])]"

definition demo_number_draft :: json where
  "demo_number_draft = demo_draft (JInt 5) (JArr [])"

definition demo_surrogate_draft :: json where
  "demo_surrogate_draft = demo_draft (JStr [55296]) (JArr [])"

definition demo_batches :: "(int \<times> json list) list" where
  "demo_batches =
     [(1, [demo_draft (JStr (ascii ''q1'')) (JArr []), demo_draft (JStr (ascii ''q1'')) (JArr []),
           demo_draft (JStr []) (JArr [])]),
      (2, [demo_draft (JStr (ascii ''q1'')) (JArr []), demo_draft (JStr (ascii ''q2'')) (JArr [])])]"

text \<open>A list of two options and a decoder on the texts that occur.\<close>

definition demo_options :: json where
  "demo_options = JArr [JStr (ascii ''A. x''), JStr (ascii ''B. y'')]"

definition demo_dumps :: "json \<Rightarrow> exn + pystr" where
  \<open>demo_dumps v = Inr (if v = demo_options then ascii ''["A. x", "B. y"]'' else ascii ''[]'')\<close>

definition demo_loads :: "pystr \<Rightarrow> json option" where
  \<open>demo_loads s =
     (if s = ascii ''["A. x", "B. y"]'' then Some demo_options
      else if s = ascii ''[]'' then Some (JArr []) else None)\<close>

text \<open>The dict of a question of the sample store.\<close>

definition demo_question_dict :: "int \<Rightarrow> int \<Rightarrow> pystr \<Rightarrow> question_dict" where
  "demo_question_dict i n c =
     \<lparr>qd_id = i, qd_note_id = Some n, qd_knowledge_tag = Some (ascii ''tag''),
      qd_q_type = Some (ascii ''single_choice''), qd_content = Some c,
      qd_options = JArr [], qd_answer = Some (ascii ''A''),
      qd_analysis = Some [], qd_difficulty = Some []\<rparr>"











section \<open>Properties of answer grading\<close>

lemma normalize_choice_single_upper:
  assumes "strip sp s = c # rest" and "upper1 up c = [u]"
  shows "normalize_choice sp up s = (if 65 \<le> u \<and> u \<le> 90 then [u] else c # rest)"
  using assms by (auto simp: normalize_choice_def ascii_def)

lemma normalize_choice_examples:
  "normalize_choice sp up (ascii ''c. some text'') = normalize_choice sp up (ascii ''C'')"
  "normalize_choice sp up (ascii '''') = ascii ''''"
  "grade_single_choice sp up (ascii ''C. Option text'') (ascii ''C'')"
  by (simp_all add: grade_single_choice_def normalize_choice_def strip_def isspace_def
      upper1_def ascii_def)

text \<open>
  Where the first character has a one-character upper-case form (every ASCII character
  has), the code computes the normalization of the specification.
\<close>

lemma normalize_choice_spec:
  assumes "\<And>c rest. strip sp s = c # rest \<Longrightarrow> length (upper1 up c) = 1"
  shows "normalize_choice sp up s = spec_normalize sp up s"
proof (cases "strip sp s")
  case Nil
  then show ?thesis by (simp add: normalize_choice_def spec_normalize_def)
next
  case (Cons c rest)
  then have "length (upper1 up c) = 1" by (rule assms)
  then obtain u where u: "upper1 up c = [u]"
    by (cases "upper1 up c") simp_all
  show ?thesis using Cons u
    by (auto simp: normalize_choice_def spec_normalize_def is_letter_AZ_def ascii_def)
qed

text \<open>
  C2. The code departs from the claim where the upper-case form of the first character
  has several code points: the answers \<open>sharp s, a\<close> and \<open>sharp s, b\<close> both get the key
  \<open>SS\<close> (which lies between \<open>A\<close> and \<open>Z\<close> as a string) and are graded equal, while
  the normalization of the claim keeps the two trimmed strings, which differ.
\<close>

theorem normalize_choice_multichar_upper:
  "normalize_choice (\<lambda>c. False) upper_sharp_s [223, 97] = ascii ''SS'' \<and>
   spec_normalize (\<lambda>c. False) upper_sharp_s [223, 97] = [223, 97] \<and>
   grade_single_choice (\<lambda>c. False) upper_sharp_s [223, 97] [223, 98] \<and>
   spec_normalize (\<lambda>c. False) upper_sharp_s [223, 97] \<noteq>
     spec_normalize (\<lambda>c. False) upper_sharp_s [223, 98]"
  by (simp add: grade_single_choice_def normalize_choice_def spec_normalize_def strip_def
      isspace_def upper1_def upper_sharp_s_def is_letter_AZ_def ascii_def)

section \<open>Properties of scoring\<close>

lemma normalize_score_Finite:
  "normalize_score (Finite x) = Finite (max 0 (min 1 (if 1 < x then x / 100 else x)))"
  by (auto simp: normalize_score_def py_min_def py_max_def Let_def min_def max_def)

lemma normalize_score_special:
  "normalize_score PosInf = Finite 1" "normalize_score NegInf = Finite 0"
  "normalize_score NaN = Finite 1"
  by (simp_all add: normalize_score_def py_min_def py_max_def)

lemma normalize_score_range: "\<exists>s. normalize_score x = Finite s \<and> 0 \<le> s \<and> s \<le> 1"
  by (cases x) (auto simp: normalize_score_Finite normalize_score_special)



lemma score_of_payload_range:
  "score_of_payload pf repr js = Inr (s, c) \<Longrightarrow> \<exists>r. s = Finite r \<and> 0 \<le> r \<and> r \<le> 1"
  using normalize_score_range
  by (auto simp: score_of_payload_def Let_def split: json.splits sum.splits)

lemma parse_score_range:
  "parse_score loads pf repr sp data = Inr (s, c) \<Longrightarrow> \<exists>r. s = Finite r \<and> 0 \<le> r \<and> r \<le> 1"
  by (auto simp: parse_score_def split: sum.splits if_splits json.splits option.splits
      dest: score_of_payload_range)

lemma score_answer_range:
  "\<exists>r c. score_answer loads pf repr sp key resp = Inr (Finite r, c) \<and> 0 \<le> r \<and> r \<le> 1"
proof (cases "key = []")
  case True
  then show ?thesis by (simp add: score_answer_def)
next
  case False
  show ?thesis
  proof (cases resp)
    case (Raises e)
    then show ?thesis using False by (simp add: score_answer_def try_except_def)
  next
    case (Decoded data)
    show ?thesis
    proof (cases "parse_score loads pf repr sp data")
      case (Inl e)
      then show ?thesis using False Decoded by (simp add: score_answer_def try_except_def)
    next
      case (Inr p)
      obtain s c where p: "p = (s, c)" by (cases p)
      from parse_score_range [of loads pf repr sp data s c] Inr p
      obtain r where "s = Finite r" "0 \<le> r" "r \<le> 1" by auto
      then show ?thesis using False Decoded Inr p by (simp add: score_answer_def try_except_def)
    qed
  qed
qed

lemma score_of_payload_value:
  assumes "py_float pf (dict_get d (ascii ''score'') (JInt 0)) = Inr (Finite x)"
  shows "score_of_payload pf repr (JObj d) =
     Inr (Finite (max 0 (min 1 (if 1 < x then x / 100 else x))),
          (if py_str repr (dict_get d (ascii ''comment'') (JStr [])) = [] then msg_no_comment
           else py_str repr (dict_get d (ascii ''comment'') (JStr []))))"
  using assms by (simp add: score_of_payload_def normalize_score_Finite Let_def)

lemma score_answer_decoded:
  assumes "key \<noteq> []" and "response_text data = Inr (JStr t)" and "t \<noteq> []"
    and "loads (clean_text sp t) = Some js"
  shows "score_answer loads pf repr sp key (Decoded data) =
     try_except (score_of_payload pf repr js) (Finite 0, msg_failed)"
  using assms by (simp add: score_answer_def parse_score_def)

text \<open>
  C3. Whatever the response, \<open>score_answer\<close> returns a finite score between 0 and 1.
  When the text of the response decodes to a dict whose score (0 when the key is
  missing) converts to the finite number \<open>x\<close>, the returned score is \<open>x\<close>, divided by
  100 when above 1, then clamped to the interval from 0 to 1, and the comment is the
  fixed placeholder when the decoded comment is empty.
\<close>

theorem score_answer_normalizes:
  "(\<exists>r c. score_answer loads pf repr sp key resp = Inr (Finite r, c) \<and> 0 \<le> r \<and> r \<le> 1) \<and>
   (key \<noteq> [] \<and> response_text data = Inr (JStr t) \<and> t \<noteq> [] \<and>
    loads (clean_text sp t) = Some (JObj d) \<and>
    py_float pf (dict_get d (ascii ''score'') (JInt 0)) = Inr (Finite x) \<longrightarrow>
    score_answer loads pf repr sp key (Decoded data) =
      Inr (Finite (max 0 (min 1 (if 1 < x then x / 100 else x))),
           (if py_str repr (dict_get d (ascii ''comment'') (JStr [])) = [] then msg_no_comment
            else py_str repr (dict_get d (ascii ''comment'') (JStr []))))) \<and>
   (map_of d (ascii ''score'') = None \<longrightarrow>
    py_float pf (dict_get d (ascii ''score'') (JInt 0)) = Inr (Finite 0))"
proof (intro conjI impI)
  show "\<exists>r c. score_answer loads pf repr sp key resp = Inr (Finite r, c) \<and> 0 \<le> r \<and> r \<le> 1"
    by (rule score_answer_range)
next
  assume a: "key \<noteq> [] \<and> response_text data = Inr (JStr t) \<and> t \<noteq> [] \<and>
    loads (clean_text sp t) = Some (JObj d) \<and>
    py_float pf (dict_get d (ascii ''score'') (JInt 0)) = Inr (Finite x)"
  then have "score_answer loads pf repr sp key (Decoded data) =
     try_except (score_of_payload pf repr (JObj d)) (Finite 0, msg_failed)"
    using score_answer_decoded [of key data t loads sp "JObj d" pf repr] by simp
  also have "\<dots> = Inr (Finite (max 0 (min 1 (if 1 < x then x / 100 else x))),
           (if py_str repr (dict_get d (ascii ''comment'') (JStr [])) = [] then msg_no_comment
            else py_str repr (dict_get d (ascii ''comment'') (JStr []))))"
    using a by (simp add: score_of_payload_value try_except_def)
  finally show "score_answer loads pf repr sp key (Decoded data) =
      Inr (Finite (max 0 (min 1 (if 1 < x then x / 100 else x))),
           (if py_str repr (dict_get d (ascii ''comment'') (JStr [])) = [] then msg_no_comment
            else py_str repr (dict_get d (ascii ''comment'') (JStr []))))" .
next
  assume "map_of d (ascii ''score'') = None"
  then show "py_float pf (dict_get d (ascii ''score'') (JInt 0)) = Inr (Finite 0)"
    by (simp add: dict_get_def py_float_def)
qed

lemma demo_response_text:
  \<open>response_text demo_score_body = Inr (JStr (ascii ''{"score": 85}''))\<close>
  by (simp add: response_text_def known_text_def demo_score_body_def dict_get_def ascii_def)

lemma demo_clean: \<open>clean_text (\<lambda>c. False) (ascii ''{"score": 85}'') = ascii ''{"score": 85}''\<close>
  by (simp add: clean_text_def strip_def isspace_def startswith_def ascii_def)

theorem score_answer_normalizes_witness:
  \<open>score_answer demo_score_loads (\<lambda>s. None) (\<lambda>v. []) (\<lambda>c. False) (ascii ''key'')
      (Decoded demo_score_body) = Inr (Finite 0.85, msg_no_comment) \<and>
   py_float (\<lambda>s. None) (dict_get [] (ascii ''score'') (JInt 0)) = Inr (Finite 0)\<close>
proof -
  have m: "map_of ([] :: pydict) (ascii ''score'') = None" by simp
  have z: "py_float (\<lambda>s. None) (dict_get [] (ascii ''score'') (JInt 0)) = Inr (Finite 0)"
    using score_answer_normalizes [where d = "[]" and pf = "\<lambda>s. None",
      THEN conjunct2, THEN conjunct2, THEN mp, OF m] .
  have h: \<open>ascii ''key'' \<noteq> [] \<and>
     response_text demo_score_body = Inr (JStr (ascii ''{"score": 85}'')) \<and>
     ascii ''{"score": 85}'' \<noteq> [] \<and>
     demo_score_loads (clean_text (\<lambda>c. False) (ascii ''{"score": 85}'')) =
       Some (JObj [(ascii ''score'', JInt 85)]) \<and>
     py_float (\<lambda>s. None) (dict_get [(ascii ''score'', JInt 85)] (ascii ''score'') (JInt 0)) =
       Inr (Finite 85)\<close>
    by (simp add: demo_response_text demo_clean demo_score_loads_def dict_get_def
        py_float_def) (simp add: ascii_def)
  from score_answer_normalizes [where loads = demo_score_loads and pf = "\<lambda>s. None"
      and repr = "\<lambda>v. []" and sp = "\<lambda>c. False" and key = "ascii ''key''"
      and data = demo_score_body and d = "[(ascii ''score'', JInt 85)]" and x = 85,
      THEN conjunct2, THEN conjunct1, THEN mp, OF h]
  have "score_answer demo_score_loads (\<lambda>s. None) (\<lambda>v. []) (\<lambda>c. False) (ascii ''key'')
      (Decoded demo_score_body) = Inr (Finite 0.85, msg_no_comment)"
    by (simp add: dict_get_def py_str_def ascii_def)
  then show ?thesis using z by (rule conjI)
qed

section \<open>The clients and failure\<close>

lemma try_except_returns: "\<exists>v. try_except body dflt = Inr v"
  by (cases body) (simp_all add: try_except_def)

lemma try_except_Inl: "try_except (Inl e) dflt = Inr dflt"
  by (simp add: try_except_def)

text \<open>\<open>score_answer\<close> returns a pair on every input, whatever printing does.\<close>

lemma score_answer_returns: "\<exists>r c. score_answer loads pf repr sp key resp = Inr (r, c)"
  using score_answer_range [of loads pf repr sp key resp] by blast

lemma score_answer_no_key: "score_answer loads pf repr sp [] resp = Inr (Finite 0, msg_no_api_key)"
  by (simp add: score_answer_def)

lemma score_answer_call_fails:
  "key \<noteq> [] \<Longrightarrow> score_answer loads pf repr sp key (Raises e) = Inr (Finite 0, msg_failed)"
  by (simp add: score_answer_def try_except_def)

lemma score_unparsable:
  assumes "key \<noteq> []" and "response_text data = Inr (JStr t)" and "t \<noteq> []"
    and "loads (clean_text sp t) = None"
  shows "score_answer loads pf repr sp key (Decoded data) = Inr (Finite 0, msg_failed)"
  using assms by (simp add: score_answer_def parse_score_def try_except_def)

text \<open>
  \<open>generate_questions_from_note\<close> returns the empty list without a key. With a key it
  returns a list whenever the standard output takes what is printed; when the remote
  call raises, what it does is what the handler's last \<open>print\<close> does.
\<close>

lemma generate_no_key: "generate_questions_from_note loads sp out [] resp = Inr []"
  by (simp add: generate_questions_from_note_def)

lemma generate_returns:
  assumes "\<And>m. out m = None"
  shows "\<exists>qs. generate_questions_from_note loads sp out key resp = Inr qs"
  using assms by (simp add: generate_questions_from_note_def split: sum.splits)

lemma generate_call_fails:
  "key \<noteq> [] \<Longrightarrow>
   generate_questions_from_note loads sp out key (Raises e) =
     (case out (CallFailed e) of None \<Rightarrow> Inr [] | Some e' \<Rightarrow> Inl e')"
  by (simp add: generate_questions_from_note_def)

lemma generate_call_fails_printed:
  "out (CallFailed e) = None \<Longrightarrow>
   generate_questions_from_note loads sp out key (Raises e) = Inr []"
  by (simp add: generate_questions_from_note_def)

lemma generate_unparsable:
  assumes "response_text data = Inr (JStr t)" and "t \<noteq> []"
    and "\<nexists>qs. loads (clean_text sp t) = Some (JArr qs)"
    and "out (CallFailed JSONDecodeError) = None"
  shows "generate_questions_from_note loads sp out key (Decoded data) = Inr []"
proof (cases "loads (clean_text sp t)")
  case None
  then show ?thesis using assms
    by (simp add: generate_questions_from_note_def parse_questions_def questions_of_text_def)
next
  case (Some v)
  then have "\<nexists>qs. v = JArr qs" using assms(3) by simp
  then have "questions_of_text loads sp t = Inr []"
    using Some by (cases v) (simp_all add: questions_of_text_def)
  then show ?thesis using assms
    by (simp add: generate_questions_from_note_def parse_questions_def)
qed

text \<open>
  C5. \<open>generate_questions_from_note\<close> can raise to its caller. With a key configured,
  a remote call that raises, and a standard output that refuses the text of the
  exception (\<open>demo_stdout\<close>: an encoding without the characters of the message), the
  last \<open>print\<close> of the handler raises \<open>UnicodeEncodeError\<close>, and this exception leaves
  the function in place of the empty list. On the same input \<open>score_answer\<close>, whose
  handler prints inside a \<open>try\<close> only, returns the score 0 and the failure message.
\<close>

theorem generate_raises_when_print_fails:
  "generate_questions_from_note (\<lambda>s. None) (\<lambda>c. False) demo_stdout (ascii ''key'')
     (Raises RequestException) = Inl UnicodeEncodeError \<and>
   score_answer (\<lambda>s. None) (\<lambda>s. None) (\<lambda>v. []) (\<lambda>c. False) (ascii ''key'')
     (Raises RequestException) = Inr (Finite 0, msg_failed)"
  by (simp add: generate_questions_from_note_def score_answer_def try_except_def
      demo_stdout_def ascii_def)

section \<open>Deleting a note\<close>

lemma delete_note_answers:
  "user_answers (delete_note d n) =
     filter (\<lambda>a. \<not> (\<exists>r \<in> set (questions d). q_note_id r = Some n \<and> a_question_id a = Some (q_id r)))
       (user_answers d)"
proof (cases "filter (\<lambda>r. q_note_id r = Some n) (questions d) = []")
  case True
  then have "\<forall>r \<in> set (questions d). q_note_id r \<noteq> Some n"
    by (simp add: filter_empty_conv)
  then show ?thesis using True by (simp add: delete_note_def)
next
  case False
  then have "user_answers (delete_note d n) =
      filter (\<lambda>a. case a_question_id a of None \<Rightarrow> True
          | Some i \<Rightarrow> i \<notin> set (map q_id (filter (\<lambda>r. q_note_id r = Some n) (questions d))))
        (user_answers d)"
    by (simp add: delete_note_def)
  also have "\<dots> =
      filter (\<lambda>a. \<not> (\<exists>r \<in> set (questions d). q_note_id r = Some n \<and>
                                          a_question_id a = Some (q_id r)))
        (user_answers d)"
    by (intro filter_cong refl) (auto split: option.splits)
  finally show ?thesis .
qed

text \<open>
  C7. \<open>delete_note\<close> leaves exactly the notes other than \<open>n\<close>, the questions whose
  note is not \<open>n\<close>, and the answers that reference no question of note \<open>n\<close>, each
  unchanged and in its place; with the question keys distinct (they are the primary
  key), every answer that references a question of another note is among them.
\<close>

theorem delete_note_cascade:
  assumes "distinct (map q_id (questions d))"
  shows "note_rows (delete_note d n) = filter (\<lambda>m. n_id m \<noteq> n) (note_rows d) \<and>
    questions (delete_note d n) = filter (\<lambda>r. q_note_id r \<noteq> Some n) (questions d) \<and>
    user_answers (delete_note d n) =
      filter (\<lambda>a. \<not> (\<exists>r \<in> set (questions d). q_note_id r = Some n \<and>
                                          a_question_id a = Some (q_id r)))
        (user_answers d) \<and>
    (\<forall>a \<in> set (user_answers d).
       (\<exists>r \<in> set (questions d). q_note_id r \<noteq> Some n \<and> a_question_id a = Some (q_id r)) \<longrightarrow>
       a \<in> set (user_answers (delete_note d n)))"
proof (intro conjI ballI impI)
  show "note_rows (delete_note d n) = filter (\<lambda>m. n_id m \<noteq> n) (note_rows d)"
    by (simp add: delete_note_def Let_def)
  show "questions (delete_note d n) = filter (\<lambda>r. q_note_id r \<noteq> Some n) (questions d)"
    by (simp add: delete_note_def Let_def)
  show "user_answers (delete_note d n) =
      filter (\<lambda>a. \<not> (\<exists>r \<in> set (questions d). q_note_id r = Some n \<and>
                                          a_question_id a = Some (q_id r)))
        (user_answers d)"
    by (rule delete_note_answers)
next
  fix a
  assume a: "a \<in> set (user_answers d)"
    and "\<exists>r \<in> set (questions d). q_note_id r \<noteq> Some n \<and> a_question_id a = Some (q_id r)"
  then obtain r where r: "r \<in> set (questions d)" "q_note_id r \<noteq> Some n"
    "a_question_id a = Some (q_id r)" by blast
  have "\<not> (\<exists>r' \<in> set (questions d). q_note_id r' = Some n \<and> a_question_id a = Some (q_id r'))"
  proof
    assume "\<exists>r' \<in> set (questions d). q_note_id r' = Some n \<and> a_question_id a = Some (q_id r')"
    then obtain r' where r': "r' \<in> set (questions d)" "q_note_id r' = Some n"
      "a_question_id a = Some (q_id r')" by blast
    have "q_id r = q_id r'" using r(3) r'(3) by simp
    then have "r = r'" using assms r(1) r'(1) by (meson distinct_map inj_onD)
    then show False using r(2) r'(2) by simp
  qed
  then show "a \<in> set (user_answers (delete_note d n))"
    using a by (simp add: delete_note_answers)
qed

theorem delete_note_cascade_witness:
  "distinct (map q_id (questions demo_db)) \<and>
   map n_id (note_rows (delete_note demo_db 2)) = [1] \<and>
   questions (delete_note demo_db 2) = [demo_question 1 1 (ascii ''q1'')] \<and>
   user_answers (delete_note demo_db 2) = [demo_answer 1 1 1 100]"
proof -
  have h: "distinct (map q_id (questions demo_db))"
    by (simp add: demo_db_def demo_question_def)
  from delete_note_cascade [OF h, of 2]
  show ?thesis using h
    by (simp add: demo_db_def demo_question_def demo_answer_def)
qed

section \<open>Statistics\<close>

lemma sum_list_map_filter_or_zero:
  "sum_list (List.map_filter (\<lambda>v. v) vs) = sum_list (map or_zero vs)"
  by (induction vs) (auto simp: List.map_filter_simps or_zero_def split: option.splits)

lemma or_zero_sql_sum: "or_zero (sql_sum vs) = sum_list (map or_zero vs)"
  using sum_list_map_filter_or_zero [of vs]
  by (auto simp: sql_sum_def or_zero_def)

lemma ratio_or_zero_value:
  "ratio_or_zero a b = Inr (if b = 0 then 0 else of_int a / of_int b)"
  by (simp add: ratio_or_zero_def py_truediv_def)

lemma week_row_value: "week_row week answers w = Inr (week_bucket week answers w)"
  by (simp add: week_row_def week_bucket_def Let_def or_zero_sql_sum ratio_or_zero_value
      comp_def) (simp add: or_zero_def)

lemma week_rows_value: "week_rows week answers ws = Inr (map (week_bucket week answers) ws)"
  by (induction ws) (simp_all add: week_row_value)

lemma get_stats_by_week_value:
  "get_stats_by_week week d =
     Inr (map (week_bucket week (user_answers d))
            (sort (remdups (map (\<lambda>a. week (a_created_at a)) (user_answers d)))))"
  by (simp add: get_stats_by_week_def week_rows_value)

lemma ws_week_bucket: "ws_week (week_bucket week answers w) = w"
  by (simp add: week_bucket_def Let_def)

text \<open>
  C8. \<open>get_stats_overview\<close> never fails on a division. Its accuracy is the number of
  correct answers over the number of answers, and 0 when there is no answer; so three
  answers of which two are correct give 2/3. \<open>by_week\<close> has one bucket for each week
  of an answer, in ascending order of the week; a bucket reports the number of its
  answers, the sum of their flags, and their quotient (0 for an empty bucket).
\<close>

theorem stats_overview_value:
  "\<exists>st. get_stats_overview week d = Inr st \<and>
     total_answers st = int (length (user_answers d)) \<and>
     correct_answers st = int (length (filter (\<lambda>a. a_is_correct a = Some 1) (user_answers d))) \<and>
     accuracy st = (if total_answers st > 0
                    then of_int (correct_answers st) / of_int (total_answers st) else 0) \<and>
     get_stats_by_week week d = Inr (by_week st) \<and>
     sorted (map ws_week (by_week st)) \<and> distinct (map ws_week (by_week st)) \<and>
     set (map ws_week (by_week st)) = (\<lambda>a. week (a_created_at a)) ` set (user_answers d) \<and>
     (\<forall>b \<in> set (by_week st).
        ws_total b = int (length (week_group week (user_answers d) (ws_week b))) \<and>
        ws_correct b =
          sum_list (map (\<lambda>a. or_zero (a_is_correct a))
                      (week_group week (user_answers d) (ws_week b))) \<and>
        ws_accuracy b =
          (if ws_total b = 0 then 0 else of_int (ws_correct b) / of_int (ws_total b))) \<and>
     (total_answers st = 3 \<and> correct_answers st = 2 \<longrightarrow> accuracy st = 2 / 3)"
proof -
  let ?keys = "sort (remdups (map (\<lambda>a. week (a_created_at a)) (user_answers d)))"
  let ?wk = "map (week_bucket week (user_answers d)) ?keys"
  let ?total = "int (length (user_answers d))"
  let ?correct = "int (length (filter (\<lambda>a. a_is_correct a = Some 1) (user_answers d)))"
  let ?st = "\<lparr>total_answers = ?total, correct_answers = ?correct,
              accuracy = (if ?total = 0 then 0 else of_int ?correct / of_int ?total),
              by_week = ?wk\<rparr>"
  have ov: "get_stats_overview week d = Inr ?st"
    by (simp add: get_stats_overview_def Let_def ratio_or_zero_value get_stats_by_week_value)
  have weeks: "map ws_week ?wk = ?keys"
    by (simp add: comp_def ws_week_bucket)
  have buckets: "\<forall>b \<in> set ?wk.
        ws_total b = int (length (week_group week (user_answers d) (ws_week b))) \<and>
        ws_correct b =
          sum_list (map (\<lambda>a. or_zero (a_is_correct a))
                      (week_group week (user_answers d) (ws_week b))) \<and>
        ws_accuracy b =
          (if ws_total b = 0 then 0 else of_int (ws_correct b) / of_int (ws_total b))"
    by (auto simp: week_bucket_def Let_def)
  have "sorted (map ws_week ?wk)" "distinct (map ws_week ?wk)"
    "set (map ws_week ?wk) = (\<lambda>a. week (a_created_at a)) ` set (user_answers d)"
    unfolding weeks by simp_all
  then show ?thesis using ov buckets
    by (intro exI [of _ ?st]) (simp add: get_stats_by_week_value)
qed

lemma demo_by_week:
  "get_stats_by_week (\<lambda>t. t div 250) demo_db =
     Inr [\<lparr>ws_week = 0, ws_total = 2, ws_correct = 1, ws_accuracy = 1 / 2\<rparr>,
          \<lparr>ws_week = 1, ws_total = 1, ws_correct = 1, ws_accuracy = 1\<rparr>]"
  by (simp add: get_stats_by_week_def demo_db_def demo_answer_def week_row_def week_group_def
      sql_sum_def or_zero_def ratio_or_zero_def py_truediv_def List.map_filter_simps)

theorem stats_overview_value_witness:
  "get_stats_overview (\<lambda>t. t div 250) demo_db =
     Inr \<lparr>total_answers = 3, correct_answers = 2, accuracy = 2 / 3,
          by_week = [\<lparr>ws_week = 0, ws_total = 2, ws_correct = 1, ws_accuracy = 1 / 2\<rparr>,
                     \<lparr>ws_week = 1, ws_total = 1, ws_correct = 1, ws_accuracy = 1\<rparr>]\<rparr>"
proof -
  from stats_overview_value [of "\<lambda>t. t div 250" demo_db]
  obtain st where st: "get_stats_overview (\<lambda>t. t div 250) demo_db = Inr st"
    and t: "total_answers st = int (length (user_answers demo_db))"
    and c: "correct_answers st =
        int (length (filter (\<lambda>a. a_is_correct a = Some 1) (user_answers demo_db)))"
    and w: "get_stats_by_week (\<lambda>t. t div 250) demo_db = Inr (by_week st)"
    and e: "total_answers st = 3 \<and> correct_answers st = 2 \<longrightarrow> accuracy st = 2 / 3"
    by blast
  have t3: "total_answers st = 3" using t by (simp add: demo_db_def)
  have c2: "correct_answers st = 2" using c by (simp add: demo_db_def demo_answer_def)
  have a: "accuracy st = 2 / 3" using e t3 c2 by simp
  have b: "by_week st = [\<lparr>ws_week = 0, ws_total = 2, ws_correct = 1, ws_accuracy = 1 / 2\<rparr>,
                     \<lparr>ws_week = 1, ws_total = 1, ws_correct = 1, ws_accuracy = 1\<rparr>]"
    using w demo_by_week by simp
  show ?thesis using st t3 c2 a b by simp
qed

section \<open>Deduplication on insert\<close>

lemma on_value_Inr: "on_value r f = Inr y \<longleftrightarrow> (\<exists>x. r = Inr x \<and> f x = Inr y)"
  by (cases r) (simp_all add: on_value_def)

lemma on_value_simps [simp]: "on_value (Inl e) f = Inl e" "on_value (Inr x) f = f x"
  by (simp_all add: on_value_def)

lemma existing_contents_append:
  "existing_contents (rows @ rows') = existing_contents rows @ existing_contents rows'"
  by (simp add: existing_contents_def List.map_filter_def)

lemma existing_contents_single:
  "existing_contents [r] = (case q_content r of None \<Rightarrow> [] | Some c \<Rightarrow> if c \<noteq> [] then [c] else [])"
  by (simp add: existing_contents_def List.map_filter_def split: option.splits)

lemma existing_contents_map:
  "existing_contents rows = filter (\<lambda>c. c \<noteq> []) (List.map_filter (\<lambda>x. x) (map q_content rows))"
  by (induction rows) (simp_all add: existing_contents_def List.map_filter_simps split: option.splits)

lemma bind_text_options: "bind_text rt (JStr s) = Inr x \<Longrightarrow> x = Some s \<and> \<not> has_surrogate s"
  by (simp split: if_splits)

lemma bind_row_fields:
  assumes "bind_row dumps rt n q = Inr r"
  shows "q_note_id r = Some n \<and> int64 n \<and>
    bind_text rt (dict_get q (ascii ''knowledge_tag'') (JStr [])) = Inr (q_knowledge_tag r) \<and>
    bind_text rt (dict_get q (ascii ''q_type'') (JStr [])) = Inr (q_type r) \<and>
    bind_text rt (dict_get q (ascii ''content'') (JStr [])) = Inr (q_content r) \<and>
    (\<exists>s. dumps (dict_get q (ascii ''options'') (JArr [])) = Inr s \<and> q_options r = Some s \<and>
         \<not> has_surrogate s) \<and>
    bind_text rt (dict_get q (ascii ''answer'') (JStr [])) = Inr (q_answer r) \<and>
    bind_text rt (dict_get q (ascii ''analysis'') (JStr [])) = Inr (q_analysis r) \<and>
    bind_text rt (dict_get q (ascii ''difficulty'') (JStr [])) = Inr (q_difficulty r)"
  using assms unfolding bind_row_def on_value_Inr bind_int_def
  by (auto split: if_splits)

lemma insert_question_row:
  assumes "insert_question dumps rt clk n q d = Inr d'"
  shows "\<exists>r r'. bind_row dumps rt n q = Inr r' \<and>
      r = r'\<lparr>q_id := fresh_id (questions_seq d) (map q_id (questions d)),
             q_created_at := clk (fresh_id (questions_seq d) (map q_id (questions d)))\<rparr> \<and>
      d' = d\<lparr>questions := questions d @ [r], questions_seq := q_id r\<rparr>"
  using assms unfolding insert_question_def on_value_Inr by (auto simp: Let_def)

lemma fresh_id_gt: "x \<in> set ids \<Longrightarrow> x < fresh_id seq ids"
proof -
  have "\<And>acc. x \<in> set ids \<Longrightarrow> x \<le> fold max ids acc \<and> acc \<le> fold max ids acc"
  proof (induction ids)
    case Nil
    then show ?case by simp
  next
    case (Cons y ys)
    have m: "\<And>acc. acc \<le> fold max ys acc"
    proof (induction ys)
      case Nil
      show ?case by simp
    next
      case (Cons z zs)
      have "max z acc \<le> fold max zs (max z acc)" by (rule Cons)
      then show ?case by simp
    qed
    show ?case
    proof (cases "x = y")
      case True
      have "max y acc \<le> fold max ys (max y acc)" by (rule m)
      then show ?thesis using True by simp
    next
      case False
      then have "x \<in> set ys" using Cons.prems by simp
      then have "x \<le> fold max ys (max y acc) \<and> max y acc \<le> fold max ys (max y acc)"
        by (rule Cons.IH)
      then show ?thesis by simp
    qed
  qed
  then show "x \<in> set ids \<Longrightarrow> x < fresh_id seq ids"
    by (fastforce simp: fresh_id_def)
qed

lemma insert_question_new:
  assumes "insert_question dumps rt clk n q d = Inr d'"
  shows "\<exists>r. questions d' = questions d @ [r] \<and>
      bind_row dumps rt n q = Inr (r\<lparr>q_id := 0, q_created_at := 0\<rparr>) \<and>
      (\<forall>r' \<in> set (questions d). q_id r' < q_id r) \<and>
      user_answers d' = user_answers d \<and> note_rows d' = note_rows d"
proof -
  from insert_question_row [OF assms] obtain r r' where
    b: "bind_row dumps rt n q = Inr r'"
    and r: "r = r'\<lparr>q_id := fresh_id (questions_seq d) (map q_id (questions d)),
             q_created_at := clk (fresh_id (questions_seq d) (map q_id (questions d)))\<rparr>"
    and d': "d' = d\<lparr>questions := questions d @ [r], questions_seq := q_id r\<rparr>"
    by (elim exE conjE)
  have z: "q_id r' = 0 \<and> q_created_at r' = 0"
    using b unfolding bind_row_def on_value_Inr by auto
  have "r\<lparr>q_id := 0, q_created_at := 0\<rparr> = r'" using r z by simp
  moreover have "\<forall>x \<in> set (questions d). q_id x < q_id r"
    using r fresh_id_gt [of _ "map q_id (questions d)" "questions_seq d"] by simp
  ultimately show ?thesis using b d' by (intro exI [of _ r]) simp
qed

lemma insert_loop_rows:
  assumes "insert_loop dumps rt clk n qs (ex, d) = Inr (ex', d')"
  shows "\<exists>new. questions d' = questions d @ new \<and>
      map (\<lambda>r. Inr (r\<lparr>q_id := 0, q_created_at := 0\<rparr>)) new =
        map (bind_row dumps rt n) (accepted ex qs) \<and>
      sorted_wrt (<) (map q_id new) \<and>
      (\<forall>r \<in> set new. \<forall>r' \<in> set (questions d). q_id r' < q_id r) \<and>
      user_answers d' = user_answers d \<and> note_rows d' = note_rows d"
  using assms
proof (induction qs arbitrary: ex d)
  case Nil
  then show ?case by simp
next
  case (Cons v qs)
  show ?case
  proof (cases v)
    case (JObj q)
    let ?c = "dict_get q (ascii ''content'') (JStr [])"
    show ?thesis
    proof (cases "truthy ?c")
      case False
      then have "insert_loop dumps rt clk n qs (ex, d) = Inr (ex', d')"
        using Cons.prems JObj by (simp add: Let_def)
      from Cons.IH [OF this] show ?thesis using False JObj by simp
    next
      case True
      then obtain k where k: "py_key ?c = Inr k"
        using Cons.prems JObj by (cases "py_key ?c") (simp_all add: Let_def)
      show ?thesis
      proof (cases "k \<in> ex")
        case kin: True
        then have "insert_loop dumps rt clk n qs (ex, d) = Inr (ex', d')"
          using Cons.prems JObj True k by (simp add: Let_def)
        from Cons.IH [OF this] show ?thesis using True JObj k kin by simp
      next
        case knot: False
        then obtain d1 where d1: "insert_question dumps rt clk n q d = Inr d1"
          and l: "insert_loop dumps rt clk n qs (insert k ex, d1) = Inr (ex', d')"
          using Cons.prems JObj True k
          by (cases "insert_question dumps rt clk n q d") (simp_all add: Let_def)
        from insert_question_new [OF d1] obtain r where r: "questions d1 = questions d @ [r]"
          "bind_row dumps rt n q = Inr (r\<lparr>q_id := 0, q_created_at := 0\<rparr>)"
          "\<forall>r' \<in> set (questions d). q_id r' < q_id r"
          "user_answers d1 = user_answers d" "note_rows d1 = note_rows d"
          by (elim exE conjE)
        from Cons.IH [OF l] obtain new where new: "questions d' = questions d1 @ new"
          "map (\<lambda>r. Inr (r\<lparr>q_id := 0, q_created_at := 0\<rparr>)) new =
             map (bind_row dumps rt n) (accepted (insert k ex) qs)"
          "sorted_wrt (<) (map q_id new)"
          "\<forall>r \<in> set new. \<forall>r' \<in> set (questions d1). q_id r' < q_id r"
          "user_answers d' = user_answers d1" "note_rows d' = note_rows d1"
          by (elim exE conjE)
        have a: "questions d' = questions d @ (r # new)" using new(1) r(1) by simp
        have b: "map (\<lambda>r. Inr (r\<lparr>q_id := 0, q_created_at := 0\<rparr>)) (r # new) =
            map (bind_row dumps rt n) (accepted ex (v # qs))"
          using new(2) r(2) JObj True k knot by simp
        have c: "sorted_wrt (<) (map q_id (r # new))"
          using new(3,4) r(1) by simp
        have e: "\<forall>x \<in> set (r # new). \<forall>r' \<in> set (questions d). q_id r' < q_id x"
          using new(4) r(1,3) by simp
        show ?thesis using a b c e new(5,6) r(4,5) by (intro exI [of _ "r # new"]) simp
      qed
    qed
  qed (use Cons.prems in simp_all)
qed

lemma draft_contents_Cons:
  "draft_contents (v # qs) =
     (case content_of v of None \<Rightarrow> draft_contents qs | Some c \<Rightarrow> c # draft_contents qs)"
  by (simp add: draft_contents_def List.map_filter_simps split: option.splits)

lemma text_content_cases:
  assumes "text_content (JObj q)" and "truthy (dict_get q (ascii ''content'') (JStr []))"
  obtains s where "dict_get q (ascii ''content'') (JStr []) = JStr s" and "s \<noteq> []"
  using assms by (cases "dict_get q (ascii ''content'') (JStr [])") simp_all

lemma content_of_falsy:
  "\<not> truthy (dict_get q (ascii ''content'') (JStr [])) \<Longrightarrow> content_of (JObj q) = None"
  by (cases "dict_get q (ascii ''content'') (JStr [])") simp_all

lemma insert_loop_unique:
  assumes "insert_loop dumps rt clk n qs (ex, d) = Inr (ex', d')"
    and "ex = KStr ` set (existing_contents (questions d))"
    and "distinct (existing_contents (questions d))"
    and "\<forall>q \<in> set qs. text_content q"
  shows "ex' = KStr ` set (existing_contents (questions d')) \<and>
         distinct (existing_contents (questions d')) \<and>
         set (existing_contents (questions d')) =
           set (existing_contents (questions d)) \<union> set (draft_contents qs) \<and>
         filter blank (questions d') = filter blank (questions d)"
  using assms
proof (induction qs arbitrary: ex d)
  case Nil
  then show ?case by (auto simp: draft_contents_def List.map_filter_simps)
next
  case (Cons v qs)
  have tq: "\<forall>q \<in> set qs. text_content q" using Cons.prems(4) by simp
  show ?case
  proof (cases v)
    case (JObj q)
    let ?c = "dict_get q (ascii ''content'') (JStr [])"
    show ?thesis
    proof (cases "truthy ?c")
      case False
      then have l: "insert_loop dumps rt clk n qs (ex, d) = Inr (ex', d')"
        using Cons.prems(1) JObj by (simp add: Let_def)
      have "draft_contents (v # qs) = draft_contents qs"
        using content_of_falsy [OF False] JObj
        by (simp add: draft_contents_Cons del: content_of.simps)
      then show ?thesis using Cons.IH [OF l Cons.prems(2,3) tq] by simp
    next
      case True
      have "text_content (JObj q)" using Cons.prems(4) JObj by simp
      then obtain s where s: "?c = JStr s" "s \<noteq> []"
        using True by (rule text_content_cases)
      have dc: "draft_contents (v # qs) = s # draft_contents qs"
        using s JObj by (simp add: draft_contents_Cons)
      show ?thesis
      proof (cases "KStr s \<in> ex")
        case kin: True
        then have l: "insert_loop dumps rt clk n qs (ex, d) = Inr (ex', d')"
          using Cons.prems(1) JObj s by (simp add: Let_def)
        have "s \<in> set (existing_contents (questions d))"
          using kin Cons.prems(2) by auto
        then have "set (existing_contents (questions d)) \<union> set (draft_contents (v # qs)) =
            set (existing_contents (questions d)) \<union> set (draft_contents qs)"
          using dc by auto
        then show ?thesis using Cons.IH [OF l Cons.prems(2,3) tq] by simp
      next
        case knot: False
        then obtain d1 where d1: "insert_question dumps rt clk n q d = Inr d1"
          and l: "insert_loop dumps rt clk n qs (insert (KStr s) ex, d1) = Inr (ex', d')"
          using Cons.prems(1) JObj s
          by (cases "insert_question dumps rt clk n q d") (simp_all add: Let_def)
        from insert_question_new [OF d1] obtain r where r: "questions d1 = questions d @ [r]"
          "bind_row dumps rt n q = Inr (r\<lparr>q_id := 0, q_created_at := 0\<rparr>)"
          by (elim exE conjE)
        have "bind_text rt ?c = Inr (q_content (r\<lparr>q_id := 0, q_created_at := 0\<rparr>))"
          using bind_row_fields [OF r(2)] by (elim conjE)
        then have qc: "q_content r = Some s" using s by (simp split: if_splits)
        have ec: "existing_contents (questions d1) = existing_contents (questions d) @ [s]"
          using r(1) qc s(2) by (simp add: existing_contents_append existing_contents_single)
        have sn: "s \<notin> set (existing_contents (questions d))"
          using knot Cons.prems(2) by auto
        have p2: "insert (KStr s) ex = KStr ` set (existing_contents (questions d1))"
          using Cons.prems(2) ec by simp
        have p3: "distinct (existing_contents (questions d1))"
          using Cons.prems(3) ec sn by simp
        have bl: "filter blank (questions d1) = filter blank (questions d)"
          using r(1) qc s(2) by (simp add: blank_def)
        have "set (existing_contents (questions d1)) \<union> set (draft_contents qs) =
            set (existing_contents (questions d)) \<union> set (draft_contents (v # qs))"
          using ec dc by auto
        then show ?thesis using Cons.IH [OF l p2 p3 tq] bl by simp
      qed
    qed
  qed (use Cons.prems in simp_all)
qed

lemma insert_question_batch_Inr:
  "insert_question_batch dumps rt clk d n qs = Inr d' \<longleftrightarrow>
   (\<exists>ex'. insert_loop dumps rt clk n qs (KStr ` set (existing_contents (questions d)), d) =
      Inr (ex', d'))"
  unfolding insert_question_batch_def on_value_Inr by auto

lemma insert_question_batch_unique:
  assumes "insert_question_batch dumps rt clk d n qs = Inr d'"
    and "content_unique d" and "\<forall>q \<in> set qs. text_content q"
  shows "content_unique d' \<and>
    set (existing_contents (questions d')) =
      set (existing_contents (questions d)) \<union> set (draft_contents qs) \<and>
    filter blank (questions d') = filter blank (questions d)"
proof -
  from assms(1) obtain ex' where
    l: "insert_loop dumps rt clk n qs (KStr ` set (existing_contents (questions d)), d) =
      Inr (ex', d')"
    unfolding insert_question_batch_Inr by (elim exE)
  from insert_loop_unique [OF l refl _ assms(3)] assms(2)
  show ?thesis by (simp add: content_unique_def)
qed

text \<open>One call of a sequence: the store before it and the store after it.\<close>

lemma insert_batches_append:
  "insert_batches dumps rt clk d (xs @ ys) =
   insert_batches dumps rt clk (insert_batches dumps rt clk d xs) ys"
  by (induction xs arbitrary: d) auto

lemma insert_batches_single:
  "insert_batches dumps rt clk d [b] =
     (case insert_question_batch dumps rt clk d (fst b) (snd b) of Inl e \<Rightarrow> d | Inr d' \<Rightarrow> d')"
  by (cases b) simp

lemma insert_batches_grows:
  assumes "content_unique d" and "\<forall>b \<in> set bs. \<forall>q \<in> set (snd b). text_content q"
  shows "content_unique (insert_batches dumps rt clk d bs) \<and>
    set (existing_contents (questions d)) \<subseteq>
      set (existing_contents (questions (insert_batches dumps rt clk d bs))) \<and>
    filter blank (questions (insert_batches dumps rt clk d bs)) = filter blank (questions d)"
  using assms
proof (induction bs arbitrary: d)
  case Nil
  then show ?case by simp
next
  case (Cons b bs)
  obtain n qs where b: "b = (n, qs)" by (cases b)
  have tq: "\<forall>q \<in> set qs. text_content q" using Cons.prems(2) b by simp
  have tb: "\<forall>b \<in> set bs. \<forall>q \<in> set (snd b). text_content q" using Cons.prems(2) by simp
  show ?case
  proof (cases "insert_question_batch dumps rt clk d n qs")
    case (Inl e)
    then show ?thesis using Cons.IH [OF Cons.prems(1) tb] b by simp
  next
    case (Inr d1)
    from insert_question_batch_unique [OF Inr Cons.prems(1) tq]
    have u: "content_unique d1"
      and s: "set (existing_contents (questions d1)) =
        set (existing_contents (questions d)) \<union> set (draft_contents qs)"
      and f: "filter blank (questions d1) = filter blank (questions d)"
      by simp_all
    from Cons.IH [OF u tb] show ?thesis using Inr b s f by auto
  qed
qed

lemma count_content:
  "c \<noteq> [] \<Longrightarrow>
   length (filter (\<lambda>r. q_content r = Some c) rows) =
   length (filter (\<lambda>x. x = c) (existing_contents rows))"
proof (induction rows)
  case Nil
  then show ?case by (simp add: existing_contents_def List.map_filter_simps)
next
  case (Cons r rows)
  have "existing_contents (r # rows) = existing_contents [r] @ existing_contents rows"
    using existing_contents_append [of "[r]" rows] by simp
  then show ?case using Cons
    by (auto simp: existing_contents_single split: option.splits)
qed

lemma distinct_count_one: "distinct xs \<Longrightarrow> c \<in> set xs \<Longrightarrow> length (filter (\<lambda>x. x = c) xs) = 1"
proof (induction xs)
  case Nil
  then show ?case by simp
next
  case (Cons x xs)
  show ?case
  proof (cases "x = c")
    case True
    then have "c \<notin> set xs" using Cons.prems by simp
    then have "filter (\<lambda>x. x = c) xs = []" by (auto simp: filter_empty_conv)
    then show ?thesis using True by simp
  next
    case False
    then show ?thesis using Cons by simp
  qed
qed

lemma draft_contents_nonempty: "c \<in> set (draft_contents qs) \<Longrightarrow> c \<noteq> []"
proof (induction qs)
  case Nil
  then show ?case by (simp add: draft_contents_def List.map_filter_simps)
next
  case (Cons v qs)
  show ?case
  proof (cases "content_of v")
    case None
    then show ?thesis using Cons by (simp add: draft_contents_Cons)
  next
    case (Some s)
    have "s \<noteq> []" using Some
      by (cases v rule: content_of.cases) (auto split: json.splits if_splits)
    then show ?thesis using Cons Some by (auto simp: draft_contents_Cons)
  qed
qed

text \<open>The loop runs to its end on drafts it can handle.\<close>

lemma insert_loop_returns:
  assumes "\<forall>q \<in> set qs. storable dumps rt n q"
  shows "\<exists>ex' d'. insert_loop dumps rt clk n qs (ex, d) = Inr (ex', d')"
  using assms
proof (induction qs arbitrary: ex d)
  case Nil
  then show ?case by simp
next
  case (Cons v qs)
  have sq: "\<forall>q \<in> set qs. storable dumps rt n q" using Cons.prems by simp
  have sv: "storable dumps rt n v" using Cons.prems by simp
  then obtain q where JObj: "v = JObj q" by (cases v) simp_all
  let ?c = "dict_get q (ascii ''content'') (JStr [])"
  show ?case
  proof (cases "truthy ?c")
    case False
    then show ?thesis using Cons.IH [OF sq, of ex d] JObj by (simp add: Let_def)
  next
    case True
    then obtain k r where k: "py_key ?c = Inr k" and r: "bind_row dumps rt n q = Inr r"
      using sv JObj by (cases "py_key ?c"; cases "bind_row dumps rt n q") simp_all
    show ?thesis
    proof (cases "k \<in> ex")
      case kin: True
      then show ?thesis using Cons.IH [OF sq, of ex d] JObj True k by (simp add: Let_def)
    next
      case False
      obtain d1 where d1: "insert_question dumps rt clk n q d = Inr d1"
        using r by (simp add: insert_question_def Let_def)
      show ?thesis using Cons.IH [OF sq, of "insert k ex" d1] JObj True k False d1
        by (simp add: Let_def)
    qed
  qed
qed

lemma insert_question_batch_returns:
  assumes "\<forall>q \<in> set qs. storable dumps rt n q"
  shows "\<exists>d'. insert_question_batch dumps rt clk d n qs = Inr d'"
  using insert_loop_returns [OF assms, of clk "KStr ` set (existing_contents (questions d))" d]
  unfolding insert_question_batch_Inr by blast

text \<open>
  C1 (as amended). Take a store in which no two questions share a content that is not
  empty, and a sequence of calls of \<open>insert_question_batch\<close> in whose drafts every
  content is a string or is not true. Then the final store is such a store again.
  A call that raises leaves the store as it was. For a call that returns, every
  content that is a non-empty string of one of its drafts is, in the final store, the
  content of exactly one question; and a call returns whenever its drafts are dicts
  whose values can be bound. The stored rows without content are the same as before,
  so no draft with empty content is inserted.
\<close>

theorem insert_batches_dedup:
  assumes "content_unique d"
    and "\<forall>b \<in> set bs. \<forall>q \<in> set (snd b). text_content q"
  shows "content_unique (insert_batches dumps rt clk d bs) \<and>
    (\<forall>i < length bs. \<forall>d'.
       insert_question_batch dumps rt clk (insert_batches dumps rt clk d (take i bs))
         (fst (bs ! i)) (snd (bs ! i)) = Inr d' \<longrightarrow>
       insert_batches dumps rt clk d (take (Suc i) bs) = d' \<and>
       (\<forall>c \<in> set (draft_contents (snd (bs ! i))).
          length (filter (\<lambda>r. q_content r = Some c)
                    (questions (insert_batches dumps rt clk d bs))) = 1)) \<and>
    (\<forall>i < length bs. \<forall>e.
       insert_question_batch dumps rt clk (insert_batches dumps rt clk d (take i bs))
         (fst (bs ! i)) (snd (bs ! i)) = Inl e \<longrightarrow>
       insert_batches dumps rt clk d (take (Suc i) bs) =
         insert_batches dumps rt clk d (take i bs)) \<and>
    (\<forall>i < length bs. (\<forall>q \<in> set (snd (bs ! i)). storable dumps rt (fst (bs ! i)) q) \<longrightarrow>
       (\<exists>d'. insert_question_batch dumps rt clk (insert_batches dumps rt clk d (take i bs))
                (fst (bs ! i)) (snd (bs ! i)) = Inr d')) \<and>
    filter (\<lambda>r. q_content r = None \<or> q_content r = Some [])
        (questions (insert_batches dumps rt clk d bs)) =
      filter (\<lambda>r. q_content r = None \<or> q_content r = Some []) (questions d)"
proof (intro conjI allI impI ballI)
  let ?run = "insert_batches dumps rt clk"
  show u: "content_unique (?run d bs)"
    using insert_batches_grows [OF assms, of dumps rt clk] by simp
  show "filter (\<lambda>r. q_content r = None \<or> q_content r = Some []) (questions (?run d bs)) =
      filter (\<lambda>r. q_content r = None \<or> q_content r = Some []) (questions d)"
    using insert_batches_grows [OF assms, of dumps rt clk] by (simp add: blank_def [abs_def])
  {
    fix i assume i: "i < length bs"
    have split: "bs = take i bs @ (fst (bs ! i), snd (bs ! i)) # drop (Suc i) bs"
      using i by (simp add: id_take_nth_drop)
    have suc: "take (Suc i) bs = take i bs @ [(fst (bs ! i), snd (bs ! i))]"
      using i by (simp add: take_Suc_conv_app_nth)
    note split suc
  } note parts = this
  {
    fix i e
    assume i: "i < length bs"
      and e: "insert_question_batch dumps rt clk (?run d (take i bs))
         (fst (bs ! i)) (snd (bs ! i)) = Inl e"
    show "?run d (take (Suc i) bs) = ?run d (take i bs)"
      using e by (simp add: parts(2) [OF i] insert_batches_append insert_batches_single
          del: insert_batches.simps)
  }
  {
    fix i
    assume i: "i < length bs"
      and s: "\<forall>q \<in> set (snd (bs ! i)). storable dumps rt (fst (bs ! i)) q"
    show "\<exists>d'. insert_question_batch dumps rt clk (?run d (take i bs))
                (fst (bs ! i)) (snd (bs ! i)) = Inr d'"
      using s by (rule insert_question_batch_returns)
  }
  {
    fix i d'
    assume i: "i < length bs"
      and r: "insert_question_batch dumps rt clk (?run d (take i bs))
         (fst (bs ! i)) (snd (bs ! i)) = Inr d'"
    show step: "?run d (take (Suc i) bs) = d'"
      using r by (simp add: parts(2) [OF i] insert_batches_append insert_batches_single
          del: insert_batches.simps)
    fix c assume c: "c \<in> set (draft_contents (snd (bs ! i)))"
    have t1: "\<forall>b \<in> set (take i bs). \<forall>q \<in> set (snd b). text_content q"
      using assms(2) by (meson in_set_takeD)
    have t2: "\<forall>q \<in> set (snd (bs ! i)). text_content q"
      using assms(2) i by (meson nth_mem)
    have t3: "\<forall>b \<in> set (drop (Suc i) bs). \<forall>q \<in> set (snd b). text_content q"
      using assms(2) by (meson in_set_dropD)
    have u1: "content_unique (?run d (take i bs))"
      using insert_batches_grows [OF assms(1) t1, of dumps rt clk] by simp
    from insert_question_batch_unique [OF r u1 t2]
    have u2: "content_unique d'" and "set (existing_contents (questions d')) =
        set (existing_contents (questions (?run d (take i bs)))) \<union>
        set (draft_contents (snd (bs ! i)))"
      by simp_all
    then have c1: "c \<in> set (existing_contents (questions d'))" using c by simp
    have "bs = take (Suc i) bs @ drop (Suc i) bs" by simp
    then have "?run d bs = ?run (?run d (take (Suc i) bs)) (drop (Suc i) bs)"
      using insert_batches_append by metis
    then have fin: "?run d bs = ?run d' (drop (Suc i) bs)" using step by simp
    have "set (existing_contents (questions d')) \<subseteq>
        set (existing_contents (questions (?run d' (drop (Suc i) bs))))"
      using insert_batches_grows [OF u2 t3, of dumps rt clk] by simp
    then have "c \<in> set (existing_contents (questions (?run d bs)))"
      using c1 fin by auto
    then have "length (filter (\<lambda>x. x = c) (existing_contents (questions (?run d bs)))) = 1"
      using u by (simp add: content_unique_def distinct_count_one)
    moreover have "c \<noteq> []" using c by (rule draft_contents_nonempty)
    ultimately show "length (filter (\<lambda>r. q_content r = Some c) (questions (?run d bs))) = 1"
      by (simp add: count_content)
  }
qed

lemmas insert_eval =
  insert_question_batch_def insert_question_def bind_row_def bind_int_def int64_def
  has_surrogate_def existing_contents_def List.map_filter_simps fresh_id_def dict_get_def
  demo_draft_def demo_dumps_def demo_options_def init_db_def Let_def

text \<open>
  Where the code departs from the claim as first worded. Two calls, each with one
  draft whose content is the number 5: the column keeps the text \<open>5\<close>, which the number
  5 of the second call does not equal, so two questions with the content \<open>5\<close> are
  stored. One call with a content twice and then a draft whose content is a lone
  surrogate: the third \<open>INSERT\<close> raises \<open>UnicodeEncodeError\<close> and nothing is stored.
\<close>

theorem insert_batches_counterexamples:
  "content_unique init_db \<and>
   map q_content (questions (insert_batches demo_dumps (\<lambda>x. []) (\<lambda>i. 0) init_db
      [(1, [demo_number_draft]), (1, [demo_number_draft])])) =
     [Some (ascii ''5''), Some (ascii ''5'')] \<and>
   \<not> content_unique (insert_batches demo_dumps (\<lambda>x. []) (\<lambda>i. 0) init_db
      [(1, [demo_number_draft]), (1, [demo_number_draft])]) \<and>
   insert_question_batch demo_dumps (\<lambda>x. []) (\<lambda>i. 0) init_db 1
      [demo_draft (JStr (ascii ''q1'')) (JArr []), demo_draft (JStr (ascii ''q1'')) (JArr []),
       demo_surrogate_draft] = Inl UnicodeEncodeError \<and>
   questions (insert_batches demo_dumps (\<lambda>x. []) (\<lambda>i. 0) init_db
      [(1, [demo_draft (JStr (ascii ''q1'')) (JArr []), demo_draft (JStr (ascii ''q1'')) (JArr []),
            demo_surrogate_draft])]) = []"
proof -
  have u: "content_unique init_db"
    by (simp add: content_unique_def init_db_def existing_contents_def)
  have n: "map q_content (questions (insert_batches demo_dumps (\<lambda>x. []) (\<lambda>i. 0) init_db
      [(1, [demo_number_draft]), (1, [demo_number_draft])])) =
     [Some (ascii ''5''), Some (ascii ''5'')]"
    by (simp add: insert_eval demo_number_draft_def decimal_def digits.simps ascii_def)
  have "existing_contents (questions (insert_batches demo_dumps (\<lambda>x. []) (\<lambda>i. 0) init_db
      [(1, [demo_number_draft]), (1, [demo_number_draft])])) = [ascii ''5'', ascii ''5'']"
    unfolding existing_contents_map n by (simp add: List.map_filter_simps ascii_def)
  then have nu: "\<not> content_unique (insert_batches demo_dumps (\<lambda>x. []) (\<lambda>i. 0) init_db
      [(1, [demo_number_draft]), (1, [demo_number_draft])])"
    by (simp add: content_unique_def)
  have s: "insert_question_batch demo_dumps (\<lambda>x. []) (\<lambda>i. 0) init_db 1
      [demo_draft (JStr (ascii ''q1'')) (JArr []), demo_draft (JStr (ascii ''q1'')) (JArr []),
       demo_surrogate_draft] = Inl UnicodeEncodeError"
    by (simp add: insert_eval demo_surrogate_draft_def ascii_def)
  then have e: "questions (insert_batches demo_dumps (\<lambda>x. []) (\<lambda>i. 0) init_db
      [(1, [demo_draft (JStr (ascii ''q1'')) (JArr []), demo_draft (JStr (ascii ''q1'')) (JArr []),
            demo_surrogate_draft])]) = []"
    by (simp add: init_db_def)
  show ?thesis using u n nu s e by (intro conjI)
qed

lemma demo_batches_contents:
  "map q_content (questions (insert_batches demo_dumps (\<lambda>x. []) (\<lambda>i. 0) init_db demo_batches)) =
     [Some (ascii ''q1''), Some (ascii ''q2'')]"
  by (simp add: insert_eval demo_batches_def ascii_def)

lemma demo_batch_returns:
  "insert_question_batch demo_dumps (\<lambda>x. []) (\<lambda>i. 0) init_db 1
      [demo_draft (JStr (ascii ''q1'')) (JArr []), demo_draft (JStr (ascii ''q1'')) (JArr []),
       demo_draft (JStr []) (JArr [])] =
   Inr \<lparr>note_rows = [],
        questions = [\<lparr>q_id = 1, q_note_id = Some 1, q_knowledge_tag = Some (ascii ''tag''),
                      q_type = Some (ascii ''short_answer''), q_content = Some (ascii ''q1''),
                      q_options = Some (ascii ''[]''), q_answer = Some (ascii ''yes''),
                      q_analysis = Some [], q_difficulty = Some [], q_created_at = 0\<rparr>],
        user_answers = [], notes_seq = 0, questions_seq = 1, user_answers_seq = 0\<rparr>"
  by (simp add: insert_eval ascii_def)

theorem insert_batches_dedup_witness:
  "content_unique init_db \<and>
   map q_content (questions (insert_batches demo_dumps (\<lambda>x. []) (\<lambda>i. 0) init_db demo_batches)) =
     [Some (ascii ''q1''), Some (ascii ''q2'')] \<and>
   content_unique (insert_batches demo_dumps (\<lambda>x. []) (\<lambda>i. 0) init_db demo_batches) \<and>
   length (filter (\<lambda>r. q_content r = Some (ascii ''q1''))
      (questions (insert_batches demo_dumps (\<lambda>x. []) (\<lambda>i. 0) init_db demo_batches))) = 1"
proof -
  have h: "content_unique init_db"
    by (simp add: content_unique_def init_db_def existing_contents_def)
  have t: "\<forall>b \<in> set demo_batches. \<forall>q \<in> set (snd b). text_content q"
    by (simp add: demo_batches_def demo_draft_def dict_get_def ascii_def)
  note th = insert_batches_dedup [OF h t, of demo_dumps "\<lambda>x. []" "\<lambda>i. 0"]
  have u: "content_unique (insert_batches demo_dumps (\<lambda>x. []) (\<lambda>i. 0) init_db demo_batches)"
    using th by (elim conjE)
  have a: "\<forall>i < length demo_batches. \<forall>d'.
       insert_question_batch demo_dumps (\<lambda>x. []) (\<lambda>i. 0)
         (insert_batches demo_dumps (\<lambda>x. []) (\<lambda>i. 0) init_db (take i demo_batches))
         (fst (demo_batches ! i)) (snd (demo_batches ! i)) = Inr d' \<longrightarrow>
       insert_batches demo_dumps (\<lambda>x. []) (\<lambda>i. 0) init_db (take (Suc i) demo_batches) = d' \<and>
       (\<forall>c \<in> set (draft_contents (snd (demo_batches ! i))).
          length (filter (\<lambda>r. q_content r = Some c)
            (questions (insert_batches demo_dumps (\<lambda>x. []) (\<lambda>i. 0) init_db demo_batches))) = 1)"
    using th by (elim conjE)
  have l: "0 < length demo_batches" by (simp add: demo_batches_def)
  have r: "\<exists>d'. insert_question_batch demo_dumps (\<lambda>x. []) (\<lambda>i. 0)
         (insert_batches demo_dumps (\<lambda>x. []) (\<lambda>i. 0) init_db (take 0 demo_batches))
         (fst (demo_batches ! 0)) (snd (demo_batches ! 0)) = Inr d'"
    using demo_batch_returns by (simp add: demo_batches_def)
  have m: "ascii ''q1'' \<in> set (draft_contents (snd (demo_batches ! 0)))"
    by (simp add: demo_batches_def draft_contents_def List.map_filter_simps demo_draft_def
        dict_get_def ascii_def)
  from r obtain d' where "insert_question_batch demo_dumps (\<lambda>x. []) (\<lambda>i. 0)
         (insert_batches demo_dumps (\<lambda>x. []) (\<lambda>i. 0) init_db (take 0 demo_batches))
         (fst (demo_batches ! 0)) (snd (demo_batches ! 0)) = Inr d'"
    by (elim exE)
  from a [rule_format, OF l this]
  have "\<forall>c \<in> set (draft_contents (snd (demo_batches ! 0))).
          length (filter (\<lambda>r. q_content r = Some c)
            (questions (insert_batches demo_dumps (\<lambda>x. []) (\<lambda>i. 0) init_db demo_batches))) = 1"
    by (rule conjunct2)
  then have c: "length (filter (\<lambda>r. q_content r = Some (ascii ''q1''))
      (questions (insert_batches demo_dumps (\<lambda>x. []) (\<lambda>i. 0) init_db demo_batches))) = 1"
    using m by (rule bspec)
  show ?thesis using h demo_batches_contents u c by (intro conjI)
qed

section \<open>Reading questions\<close>

lemma rows_to_dicts_rows:
  "rows_to_dicts loads rows = Inr xs \<Longrightarrow> x \<in> set xs \<Longrightarrow>
   \<exists>r \<in> set rows. row_to_question_dict loads r = Inr x"
proof (induction rows arbitrary: xs)
  case Nil
  then show ?case by simp
next
  case (Cons r rows)
  then show ?case
    by (auto split: sum.splits)
qed

lemma set_sql_limit: "set (sql_limit limit p) \<subseteq> set p"
  by (auto simp: sql_limit_def dest: in_set_takeD)

lemma get_questions_by_knowledge_inv:
  assumes "get_questions_by_knowledge loads d tags limit note_id scope qt res"
  shows "\<exists>p resolved. resolve_note_id d note_id scope resolved \<and>
     mset p = mset (filter (selected resolved tags qt) (questions d)) \<and>
     res = rows_to_dicts loads (sql_limit limit p)"
  using assms by cases blast

lemma get_wrong_questions_inv:
  assumes "get_wrong_questions loads d limit res"
  shows "\<exists>p. mset p = mset (filter (\<lambda>r. wrong_answers d r \<noteq> []) (questions d)) \<and>
     sorted (rev (map (last_wrong d) p)) \<and>
     res = rows_to_dicts loads (sql_limit limit p)"
  using assms by cases blast

lemma rows_to_dicts_limit_rows:
  assumes "rows_to_dicts loads (sql_limit limit p) = Inr xs" and "x \<in> set xs"
  shows "\<exists>r. r \<in> set p \<and> row_to_question_dict loads r = Inr x"
proof -
  from rows_to_dicts_rows [OF assms] obtain r where r: "r \<in> set (sql_limit limit p)"
    "row_to_question_dict loads r = Inr x" by (elim bexE)
  have "r \<in> set p" using r(1) set_sql_limit [of limit p] by (rule subsetD [rotated])
  then show ?thesis using r(2) by (intro exI conjI)
qed

lemma get_question_by_id_row:
  assumes "get_question_by_id loads d i = Inr (Some x)"
  shows "\<exists>r. r \<in> set (questions d) \<and> row_to_question_dict loads r = Inr x"
proof (cases "find (\<lambda>r. q_id r = i) (questions d)")
  case None
  then show ?thesis using assms by (simp add: get_question_by_id_def)
next
  case (Some r)
  then have "r \<in> set (questions d)"
    by (metis find_Some_iff nth_mem)
  moreover have "row_to_question_dict loads r = Inr x"
    using assms Some by (simp add: get_question_by_id_def split: sum.splits)
  ultimately show ?thesis by (intro exI conjI)
qed

lemma row_to_question_dict_fields:
  "row_to_question_dict loads r = Inr x \<Longrightarrow>
   qd_id x = q_id r \<and> qd_note_id x = q_note_id r \<and> qd_knowledge_tag x = q_knowledge_tag r \<and>
   qd_q_type x = q_type r \<and> qd_content x = q_content r"
  by (auto simp: row_to_question_dict_def Let_def split: option.splits if_splits)

lemma row_to_question_dict_options:
  "row_to_question_dict loads r = Inr x \<Longrightarrow> q_options r = Some s \<Longrightarrow> s \<noteq> [] \<Longrightarrow>
   loads s = Some (qd_options x)"
  by (auto simp: row_to_question_dict_def Let_def split: option.splits)

lemma row_to_question_dict_empty:
  "loads (ascii ''[]'') = Some (JArr []) \<Longrightarrow>
   q_options (r :: question) = None \<or> q_options r = Some [] \<Longrightarrow>
   \<exists>x. row_to_question_dict loads r = Inr x \<and> qd_options x = JArr []"
  by (auto simp: row_to_question_dict_def Let_def)

section \<open>Querying by knowledge\<close>

lemma rows_to_dicts_length:
  "rows_to_dicts loads rows = Inr xs \<Longrightarrow> length xs = length rows"
proof (induction rows arbitrary: xs)
  case Nil
  then show ?case by simp
next
  case (Cons r rows)
  then show ?case by (auto split: sum.splits)
qed

lemma mset_sql_limit: "mset (sql_limit limit p) \<subseteq># mset p"
proof (cases "limit < 0")
  case True
  then show ?thesis by (simp add: sql_limit_def)
next
  case False
  have "mset (take (nat limit) p) + mset (drop (nat limit) p) = mset p"
    by (metis append_take_drop_id mset_append)
  then have "mset (take (nat limit) p) \<subseteq># mset p"
    by (metis mset_subset_eq_add_left)
  then show ?thesis using False by (simp add: sql_limit_def)
qed

lemma length_sql_limit: "0 \<le> limit \<Longrightarrow> int (length (sql_limit limit p)) \<le> limit"
  by (simp add: sql_limit_def)

lemma sql_limit_all: "limit < 0 \<or> int (length p) \<le> limit \<Longrightarrow> sql_limit limit p = p"
  by (auto simp: sql_limit_def)

lemma resolve_note_id_cases:
  assumes "resolve_note_id d note_id scope resolved"
  shows "(note_id \<noteq> None \<longrightarrow> resolved = note_id) \<and>
    (note_id = None \<and> scope = Some (ascii ''latest'') \<and> note_rows d \<noteq> [] \<longrightarrow>
       (\<exists>m \<in> set (note_rows d). resolved = Some (n_id m) \<and>
          (\<forall>m' \<in> set (note_rows d). n_created_at m' \<le> n_created_at m))) \<and>
    (note_id = None \<and> scope = Some (ascii ''latest'') \<and> note_rows d = [] \<longrightarrow> resolved = None) \<and>
    (note_id = None \<and> scope \<noteq> Some (ascii ''latest'') \<longrightarrow> resolved = None)"
  using assms
proof cases
  case (explicit n)
  then show ?thesis by simp
next
  case latest
  from latest(3) show ?thesis
  proof cases
    case none
    then show ?thesis using latest by simp
  next
    case (newest m)
    then show ?thesis using latest by auto
  qed
next
  case unscoped
  then show ?thesis by simp
qed

lemma selected_dict:
  assumes "selected resolved tags qt r" and "row_to_question_dict loads r = Inr x"
  shows "(resolved \<noteq> None \<longrightarrow> qd_note_id x = resolved) \<and>
         (tags \<noteq> [] \<longrightarrow> (\<exists>t \<in> set tags. qd_knowledge_tag x = Some t)) \<and>
         (recognized qt \<longrightarrow> qd_q_type x = qt)"
proof -
  have f: "qd_note_id x = q_note_id r" "qd_knowledge_tag x = q_knowledge_tag r"
    "qd_q_type x = q_type r"
    using row_to_question_dict_fields [OF assms(2)] by simp_all
  show ?thesis using assms(1) unfolding f selected_def
    by (auto split: option.splits)
qed

text \<open>
  C6 (as amended). For every list of dicts that \<open>get_questions_by_knowledge\<close> can return:
  the scope is the given note when one is given, else with the scope \<open>latest\<close> a note
  none is newer than (no scope when the store has no note), else none; every dict
  returned has the note of the scope (if any), a tag among \<open>tags\<close> when \<open>tags\<close> is not
  empty, and the requested type when that is one of the two recognized values; when
  the limit is not negative, at most that many dicts are returned; and the rows behind
  them are, as a multiset, among the selected rows, and all of them when the limit is
  negative or not below their number.
\<close>

theorem query_respects_filters:
  assumes "get_questions_by_knowledge loads d tags limit note_id scope qt (Inr xs)"
  shows "\<exists>resolved rows.
    resolve_note_id d note_id scope resolved \<and>
    (note_id \<noteq> None \<longrightarrow> resolved = note_id) \<and>
    (note_id = None \<and> scope = Some (ascii ''latest'') \<and> note_rows d \<noteq> [] \<longrightarrow>
       (\<exists>m \<in> set (note_rows d). resolved = Some (n_id m) \<and>
          (\<forall>m' \<in> set (note_rows d). n_created_at m' \<le> n_created_at m))) \<and>
    (note_id = None \<and> scope = Some (ascii ''latest'') \<and> note_rows d = [] \<longrightarrow> resolved = None) \<and>
    (note_id = None \<and> scope \<noteq> Some (ascii ''latest'') \<longrightarrow> resolved = None) \<and>
    (\<forall>x \<in> set xs.
       (resolved \<noteq> None \<longrightarrow> qd_note_id x = resolved) \<and>
       (tags \<noteq> [] \<longrightarrow> (\<exists>t \<in> set tags. qd_knowledge_tag x = Some t)) \<and>
       (recognized qt \<longrightarrow> qd_q_type x = qt)) \<and>
    (0 \<le> limit \<longrightarrow> int (length xs) \<le> limit) \<and>
    rows_to_dicts loads rows = Inr xs \<and>
    mset rows \<subseteq># mset (filter (selected resolved tags qt) (questions d)) \<and>
    (limit < 0 \<or> int (length (filter (selected resolved tags qt) (questions d))) \<le> limit \<longrightarrow>
       mset rows = mset (filter (selected resolved tags qt) (questions d)))"
proof -
  from get_questions_by_knowledge_inv [OF assms]
  obtain p resolved where res: "resolve_note_id d note_id scope resolved"
    and p: "mset p = mset (filter (selected resolved tags qt) (questions d))"
    and xs: "Inr xs = rows_to_dicts loads (sql_limit limit p)"
    by (elim exE conjE)
  let ?rows = "sql_limit limit p"
  let ?sel = "filter (selected resolved tags qt) (questions d)"
  have xs': "rows_to_dicts loads ?rows = Inr xs" using xs by simp
  have sub: "mset ?rows \<subseteq># mset ?sel"
    using mset_sql_limit [of limit p] p by simp
  have len: "length p = length ?sel"
    using p by (rule mset_eq_length)
  have all: "limit < 0 \<or> int (length ?sel) \<le> limit \<longrightarrow> mset ?rows = mset ?sel"
    using sql_limit_all [of limit p] len p by auto
  have bound: "0 \<le> limit \<longrightarrow> int (length xs) \<le> limit"
    using rows_to_dicts_length [OF xs'] length_sql_limit [of limit p] by simp
  have filt: "\<forall>x \<in> set xs.
       (resolved \<noteq> None \<longrightarrow> qd_note_id x = resolved) \<and>
       (tags \<noteq> [] \<longrightarrow> (\<exists>t \<in> set tags. qd_knowledge_tag x = Some t)) \<and>
       (recognized qt \<longrightarrow> qd_q_type x = qt)"
  proof
    fix x
    assume x: "x \<in> set xs"
    from rows_to_dicts_limit_rows [OF xs' x]
    obtain r where r: "r \<in> set p" "row_to_question_dict loads r = Inr x"
      by (elim exE conjE)
    have "set p = set ?sel" using p by (rule mset_eq_setD)
    then have "selected resolved tags qt r" using r(1) by simp
    then show "(resolved \<noteq> None \<longrightarrow> qd_note_id x = resolved) \<and>
       (tags \<noteq> [] \<longrightarrow> (\<exists>t \<in> set tags. qd_knowledge_tag x = Some t)) \<and>
       (recognized qt \<longrightarrow> qd_q_type x = qt)"
      using r(2) by (rule selected_dict)
  qed
  show ?thesis
    using res resolve_note_id_cases [OF res] filt bound xs' sub all
    by (intro exI [of _ resolved] exI [of _ ?rows] conjI) simp_all
qed

lemma demo_rows_to_dicts:
  "rows_to_dicts demo_loads (questions demo_db) =
     Inr [demo_question_dict 1 1 (ascii ''q1''), demo_question_dict 2 2 (ascii ''q2'')]"
  by (simp add: demo_db_def demo_question_def demo_question_dict_def row_to_question_dict_def
      demo_loads_def Let_def) (simp add: ascii_def)

text \<open>
  With the limit -1 both questions of the sample store are returned: more than the
  limit.
\<close>

theorem negative_limit_unbounded:
  "get_questions_by_knowledge demo_loads demo_db [] (- 1) None None None
     (Inr [demo_question_dict 1 1 (ascii ''q1''), demo_question_dict 2 2 (ascii ''q2'')]) \<and>
   \<not> int (length [demo_question_dict 1 1 (ascii ''q1''), demo_question_dict 2 2 (ascii ''q2'')])
       \<le> - 1"
proof -
  have r: "resolve_note_id demo_db None None None"
    by (rule resolve_note_id.unscoped) simp
  have s: "filter (selected None [] None) (questions demo_db) = questions demo_db"
    by (simp add: selected_def recognized_def)
  have "get_questions_by_knowledge demo_loads demo_db [] (- 1) None None None
     (rows_to_dicts demo_loads (sql_limit (- 1) (questions demo_db)))"
    by (rule get_questions_by_knowledge.intros [OF r]) (simp add: s)
  then show ?thesis by (simp add: sql_limit_def demo_rows_to_dicts)
qed

lemma demo_latest_query:
  "get_questions_by_knowledge demo_loads demo_db [ascii ''tag''] 1 None (Some (ascii ''latest''))
     (Some (ascii ''single_choice'')) (Inr [demo_question_dict 2 2 (ascii ''q2'')])"
proof -
  let ?n2 = "\<lparr>n_id = 2, n_title = ascii ''two'', n_path = ascii ''b.txt'', n_created_at = 20\<rparr>"
  have "latest_note demo_db (Some (n_id ?n2))"
    by (rule latest_note.newest) (simp_all add: demo_db_def)
  then have l: "latest_note demo_db (Some 2)" by simp
  have r: "resolve_note_id demo_db None (Some (ascii ''latest'')) (Some 2)"
    using l by (intro resolve_note_id.latest) simp_all
  have s: "filter (selected (Some 2) [ascii ''tag''] (Some (ascii ''single_choice'')))
      (questions demo_db) = [demo_question 2 2 (ascii ''q2'')]"
    by (simp add: selected_def recognized_def demo_db_def demo_question_def)
  have "get_questions_by_knowledge demo_loads demo_db [ascii ''tag''] 1 None
      (Some (ascii ''latest'')) (Some (ascii ''single_choice''))
      (rows_to_dicts demo_loads (sql_limit 1 [demo_question 2 2 (ascii ''q2'')]))"
    by (rule get_questions_by_knowledge.intros [OF r]) (simp add: s)
  moreover have "rows_to_dicts demo_loads (sql_limit 1 [demo_question 2 2 (ascii ''q2'')]) =
      Inr [demo_question_dict 2 2 (ascii ''q2'')]"
    by (simp add: sql_limit_def demo_question_def demo_question_dict_def
        row_to_question_dict_def demo_loads_def Let_def) (simp add: ascii_def)
  ultimately show ?thesis by simp
qed

theorem query_respects_filters_witness:
  "get_questions_by_knowledge demo_loads demo_db [ascii ''tag''] 1 None (Some (ascii ''latest''))
     (Some (ascii ''single_choice'')) (Inr [demo_question_dict 2 2 (ascii ''q2'')]) \<and>
   qd_note_id (demo_question_dict 2 2 (ascii ''q2'')) = Some 2 \<and>
   qd_knowledge_tag (demo_question_dict 2 2 (ascii ''q2'')) = Some (ascii ''tag'') \<and>
   qd_q_type (demo_question_dict 2 2 (ascii ''q2'')) = Some (ascii ''single_choice'') \<and>
   int (length [demo_question_dict 2 2 (ascii ''q2'')]) \<le> 1"
proof -
  from query_respects_filters [OF demo_latest_query]
  have "int (length [demo_question_dict 2 2 (ascii ''q2'')]) \<le> 1"
    by auto
  then show ?thesis using demo_latest_query by (simp add: demo_question_dict_def)
qed

section \<open>Parsing the generation response\<close>









































end
